theory Spec2Isabelle
  imports Main
begin

section \<open>Configuration constants (src/unnamed/part_002)\<close>

text \<open>
  \<^verbatim>\<open>PROP_KEYS\<close> names the seven script properties of the credential chain. The
  property store is a flat map from these keys to strings; \<^verbatim>\<open>getProperty\<close> of an
  absent key is \<^verbatim>\<open>null\<close>, here \<open>None\<close>.
\<close>

datatype prop_key =
    PAGE_ACCESS_TOKEN | USER_ACCESS_TOKEN | PAGE_ID | PAGE_NAME
  | TOKEN_EXPIRES_AT | APP_ID | APP_SECRET

section \<open>The upstream Graph API\<close>

text \<open>
  One constructor per URL the scripts build. \<^verbatim>\<open>encodeURIComponent\<close> is injective, so a
  request is identified by the arguments that go into its URL or payload.
\<close>

datatype request =
    DebugTokenReq string string
  | AccessTokenInfoReq string
  | ExchangeTokenReq string string string
  | MeAccountsReq string
  | CommentsReq string int string
  | CommentsSinceReq string int int string
  | ReplyReq string string string
  | FeedReq string string
  | PermalinkReq string string
  | MeReq string
  | PostsReq int int string
  | ReelsReq string int int string

text \<open>
  The JSON bodies, read at the types the Graph API documents. A field that is absent
  (\<^verbatim>\<open>undefined\<close> in the script) is \<open>None\<close>. Numbers are integers (UNIX timestamps and
  durations in seconds).
\<close>

record debug_data =
  dbg_app_id :: "string option"
  dbg_type :: "string option"
  dbg_application :: "string option"
  dbg_is_valid :: "bool option"
  dbg_user_id :: "string option"
  dbg_expires_at :: "int option"
  dbg_data_access_expires_at :: "int option"
  dbg_scopes :: "string list option"

record info_data =
  inf_app_id :: "string option"
  inf_app_secret :: "string option"
  inf_type :: "string option"
  inf_expires_in :: "int option"

record exchange_data =
  exc_access_token :: "string option"
  exc_expires_in :: "int option"
  exc_token_type :: "string option"

record page =
  p_access_token :: string
  p_id :: string
  p_name :: string

record comment =
  c_id :: string
  c_from_name :: "string option"
  c_message :: "string option"
  c_created_time :: "string option"

record post_item =
  po_id :: "string option"
  po_permalink_url :: "string option"
  po_created_time :: "string option"

text \<open>
  What \<^verbatim>\<open>JSON.parse\<close> yields on a response body. \<open>Malformed\<close>: the parse throws.
  \<open>DebugJson d\<close>: an object whose \<^verbatim>\<open>data\<close> member is \<open>d\<close>. \<open>PagesJson\<close>,
  \<open>CommentsJson\<close>, \<open>PostsJson\<close>: an object whose \<^verbatim>\<open>data\<close> member is that array
  (\<open>None\<close>: no array there). \<open>IdJson i n\<close>: an object with members \<^verbatim>\<open>id\<close> and
  \<^verbatim>\<open>name\<close>. \<open>OtherJson\<close>: any other value, for instance the error object of a failed
  call; every member the scripts read from it is absent.
\<close>

datatype payload =
    Malformed
  | DebugJson "debug_data option"
  | InfoJson info_data
  | ExchangeJson exchange_data
  | PagesJson "page list option"
  | CommentsJson "comment list option"
  | PostsJson "post_item list option"
  | IdJson "string option" "string option"
  | PermalinkJson "string option"
  | OtherJson

record response =
  rcode :: int
  rtext :: string
  rjson :: payload

text \<open>
  The world outside the script: the upstream answers the \<open>n\<close>-th request of a run
  (\<open>None\<close>: \<^verbatim>\<open>UrlFetchApp.fetch\<close> itself throws), and the two date functions of the
  JavaScript runtime the scripts call.
\<close>

record world =
  upstream :: "nat \<Rightarrow> request \<Rightarrow> response option"
  toLocaleString :: "int \<Rightarrow> string"
  parseDate :: "string \<Rightarrow> int option"

section \<open>Errors, state and the computation type\<close>

text \<open>One constructor per \<^verbatim>\<open>throw\<close> site (by message) of the modelled functions.\<close>

datatype error =
    TransportError
  | SyntaxError
  | InvalidToken
  | AuthFailed
  | TokenInfoFailed int string
  | TokenInfoUnparsed
  | AppInfoInvalidToken
  | AppInfoAuthFailed
  | AppInfoFailed int string
  | NoAppId
  | PageLookupFailed int string
  | PageListMissing
  | NoUserToken
  | NoManagedPages
  | NoLongTokenEntered
  | BadAppCredentials
  | UserTokenRejected
  | ExchangeFailed int string
  | NoLongLivedToken
  | UpstreamCallFailed string int string
  | UnexpectedResponse string string
  | MissingPageId
  | TypeError
  | NoAccessToken
  | NoTargetPosts
  | RefreshReturnedFalse
  | CredentialRefreshFailed error

record log_row =
  l_postId :: string
  l_commentId :: string
  l_name :: string
  l_message :: string
  l_keyword :: string
  l_replyText :: string
  l_status :: string
  l_error :: "error option"

text \<open>
  The mutable state a run touches: the script properties with the log of
  \<^verbatim>\<open>setProperties\<close> calls (each call is one entry: the keys and values it wrote), the
  clock in milliseconds since the epoch, the requests sent so far with their answers, and
  the sheets (settings: \<open>None\<close> when the sheet does not exist).
\<close>

record state =
  props :: "prop_key \<Rightarrow> string option"
  writes :: "(prop_key \<times> string) list list"
  clock :: nat
  calls :: "(request \<times> response option) list"
  settings :: "(string \<times> string \<times> string) list option"
  processed :: "(string \<times> string) list"
  logs :: "log_row list"
  posts :: "(string \<times> string \<times> string) list"

text \<open>
  A computation returns, throws, or runs out of recursion depth (\<open>Timeout\<close>; only the
  self-retrying API wrappers can).
\<close>

datatype 'a outcome = Ret 'a | Throw error | Timeout

type_synonym 'a comp = "state \<Rightarrow> 'a outcome \<times> state"

definition returnE :: "'a \<Rightarrow> 'a comp" where
  "returnE x = (\<lambda>s. (Ret x, s))"

definition throwE :: "error \<Rightarrow> 'a comp" where
  "throwE e = (\<lambda>s. (Throw e, s))"

definition bindE :: "'a comp \<Rightarrow> ('a \<Rightarrow> 'b comp) \<Rightarrow> 'b comp" where
  "bindE m f = (\<lambda>s. case m s of
       (Ret x, s1) \<Rightarrow> f x s1
     | (Throw e, s1) \<Rightarrow> (Throw e, s1)
     | (Timeout, s1) \<Rightarrow> (Timeout, s1))"

text \<open>\<^verbatim>\<open>try { m } catch (e) { h e }\<close>\<close>

definition catchE :: "'a comp \<Rightarrow> (error \<Rightarrow> 'a comp) \<Rightarrow> 'a comp" where
  "catchE m h = (\<lambda>s. case m s of
       (Throw e, s1) \<Rightarrow> h e s1
     | (Ret x, s1) \<Rightarrow> (Ret x, s1)
     | (Timeout, s1) \<Rightarrow> (Timeout, s1))"

text \<open>\<^verbatim>\<open>UrlFetchApp.fetch(url, {muteHttpExceptions: true})\<close>\<close>

definition fetch :: "world \<Rightarrow> request \<Rightarrow> response comp" where
  "fetch w rq = (\<lambda>s.
     let r = upstream w (length (calls s)) rq;
         s1 = s\<lparr>calls := calls s @ [(rq, r)]\<rparr>
     in case r of None \<Rightarrow> (Throw TransportError, s1) | Some res \<Rightarrow> (Ret res, s1))"

definition JSON_parse :: "response \<Rightarrow> payload comp" where
  "JSON_parse res = (case rjson res of Malformed \<Rightarrow> throwE SyntaxError | j \<Rightarrow> returnE j)"

definition getProperty :: "prop_key \<Rightarrow> string option comp" where
  "getProperty k = (\<lambda>s. (Ret (props s k), s))"

definition setProperties :: "(prop_key \<times> string) list \<Rightarrow> unit comp" where
  "setProperties kvs = (\<lambda>s. (Ret (),
     s\<lparr>props := foldl (\<lambda>m (k, v). m(k \<mapsto> v)) (props s) kvs, writes := writes s @ [kvs]\<rparr>))"

text \<open>\<^verbatim>\<open>new Date().getTime()\<close> and \<^verbatim>\<open>Math.floor(Date.now() / 1000)\<close>\<close>

definition nowMs :: "int comp" where
  "nowMs = (\<lambda>s. (Ret (int (clock s)), s))"

definition nowSec :: "int comp" where
  "nowSec = (\<lambda>s. (Ret (int (clock s div 1000)), s))"

text \<open>A string the script tests for truth: \<^verbatim>\<open>null\<close>, \<^verbatim>\<open>undefined\<close> and \<^verbatim>\<open>''\<close> are falsy.\<close>

fun truthy :: "string option \<Rightarrow> string option" where
  "truthy None = None"
| "truthy (Some t) = (if t = [] then None else Some t)"

text \<open>\<^verbatim>\<open>x || d\<close> on an optional number and on an optional string\<close>

fun orNum :: "int option \<Rightarrow> int \<Rightarrow> int" where
  "orNum None d = d"
| "orNum (Some n) d = (if n = 0 then d else n)"

fun orStr :: "string option \<Rightarrow> string \<Rightarrow> string" where
  "orStr None d = d"
| "orStr (Some t) d = (if t = [] then d else t)"

text \<open>\<^verbatim>\<open>x > 0\<close> on an optional number: \<^verbatim>\<open>undefined > 0\<close> is false.\<close>

fun positive :: "int option \<Rightarrow> bool" where
  "positive None = False"
| "positive (Some n) = (0 < n)"

section \<open>Numbers as stored strings\<close>

text \<open>
  \<^verbatim>\<open>String(n)\<close> of an integer (decimal; JavaScript prints integers of magnitude below
  \<open>10^21\<close> this way) and \<^verbatim>\<open>parseInt(t, 10)\<close> (leading white space, an optional sign,
  the longest run of digits; \<open>None\<close> is \<^verbatim>\<open>NaN\<close>).
\<close>

definition digitChar :: "nat \<Rightarrow> char" where
  "digitChar d = ''0123456789'' ! d"

definition digitVal :: "char \<Rightarrow> nat option" where
  "digitVal c = map_of (zip ''0123456789'' [0..<10]) c"

fun digitsOf :: "nat \<Rightarrow> string" where
  "digitsOf n = (if n < 10 then [digitChar n] else digitsOf (n div 10) @ [digitChar (n mod 10)])"

definition String_of :: "int \<Rightarrow> string" where
  "String_of n = (if n < 0 then CHR ''-'' # digitsOf (nat (- n)) else digitsOf (nat n))"

definition isSpace :: "char \<Rightarrow> bool" where
  "isSpace c = (c = CHR '' '' \<or> c = CHR 0x09 \<or> c = CHR 0x0A \<or> c = CHR 0x0B
     \<or> c = CHR 0x0C \<or> c = CHR 0x0D)"

fun readDigits :: "nat \<Rightarrow> string \<Rightarrow> nat" where
  "readDigits acc [] = acc"
| "readDigits acc (c # cs) =
     (case digitVal c of None \<Rightarrow> acc | Some d \<Rightarrow> readDigits (10 * acc + d) cs)"

definition parseDigits :: "string \<Rightarrow> nat option" where
  "parseDigits t = (case t of [] \<Rightarrow> None
     | c # cs \<Rightarrow> (case digitVal c of None \<Rightarrow> None | Some d \<Rightarrow> Some (readDigits 0 t)))"

definition parseInt :: "string \<Rightarrow> int option" where
  "parseInt t =
    (case dropWhile isSpace t of
       [] \<Rightarrow> None
     | c # cs \<Rightarrow>
         if c = CHR ''-'' then map_option (\<lambda>n. - int n) (parseDigits cs)
         else if c = CHR ''+'' then map_option int (parseDigits cs)
         else map_option int (parseDigits (c # cs)))"

section \<open>Token introspection (src/unnamed/part_003)\<close>

record token_info =
  appId :: "string option"
  tokType :: "string option"
  application :: "string option"
  isValid :: "bool option"
  userId :: "string option"
  expiresAt :: "int option"
  dataAccessExpiresAt :: "int option"
  scopes :: "string list"
  expiresIn :: int
  isLongLived :: bool
  expires_in :: int
  app_id :: "string option"

definition debugData :: "payload \<Rightarrow> debug_data option" where
  "debugData j = (case j of DebugJson d \<Rightarrow> d | _ \<Rightarrow> None)"

definition infoData :: "payload \<Rightarrow> info_data" where
  "infoData j = (case j of InfoJson d \<Rightarrow> d
     | _ \<Rightarrow> \<lparr>inf_app_id = None, inf_app_secret = None, inf_type = None, inf_expires_in = None\<rparr>)"

text \<open>The object literal of lines 57--79, built from \<^verbatim>\<open>data\<close> at clock reading \<open>now\<close> (seconds).\<close>

definition debugTokenInfo :: "debug_data \<Rightarrow> int \<Rightarrow> token_info" where
  "debugTokenInfo d now =
    \<lparr>appId = dbg_app_id d,
     tokType = dbg_type d,
     application = dbg_application d,
     isValid = dbg_is_valid d,
     userId = dbg_user_id d,
     expiresAt = dbg_expires_at d,
     dataAccessExpiresAt = dbg_data_access_expires_at d,
     scopes = (case dbg_scopes d of None \<Rightarrow> [] | Some sc \<Rightarrow> sc),
     expiresIn = (case dbg_expires_at d of
                    Some e \<Rightarrow> if e > 0 then max 0 (e - now) else 0 | None \<Rightarrow> 0),
     isLongLived = (case dbg_expires_at d of
                      Some e \<Rightarrow> e = 0 \<or> (e > 0 \<and> e - now > 24 * 60 * 60) | None \<Rightarrow> False),
     expires_in = (case dbg_expires_at d of
                     Some e \<Rightarrow> if e > 0 then max 0 (e - now) else 0 | None \<Rightarrow> 0),
     app_id = dbg_app_id d\<rparr>"

definition getTokenInfoFromDebugToken :: "world \<Rightarrow> string \<Rightarrow> string option \<Rightarrow> token_info comp" where
  "getTokenInfoFromDebugToken w inputToken accessToken =
    catchE
      (bindE (fetch w (DebugTokenReq inputToken
                 (case truthy accessToken of Some a \<Rightarrow> a | None \<Rightarrow> inputToken))) (\<lambda>response.
         if rcode response < 200 \<or> 300 \<le> rcode response then
           (if rcode response = 400 then throwE InvalidToken
            else if rcode response = 401 then throwE AuthFailed
            else throwE (TokenInfoFailed (rcode response) (rtext response)))
         else
           bindE (JSON_parse response) (\<lambda>result.
             case debugData result of
               None \<Rightarrow> throwE TokenInfoUnparsed
             | Some d \<Rightarrow> bindE nowSec (\<lambda>now. returnE (debugTokenInfo d now)))))
      (\<lambda>error. throwE error)"

definition createAppToken :: "string \<Rightarrow> string \<Rightarrow> string" where
  "createAppToken appId' appSecret = appId' @ ''|'' @ appSecret"

text \<open>The object literal of the legacy fallback, lines 125--135.\<close>

definition legacyTokenInfo :: "info_data \<Rightarrow> token_info" where
  "legacyTokenInfo d =
    \<lparr>appId = inf_app_id d,
     tokType = Some (orStr (inf_type d) ''USER''),
     application = None,
     isValid = Some True,
     userId = None,
     expiresAt = Some 0,
     dataAccessExpiresAt = None,
     scopes = [],
     expiresIn = orNum (inf_expires_in d) 0,
     isLongLived = (orNum (inf_expires_in d) 0 > 24 * 60 * 60),
     expires_in = orNum (inf_expires_in d) 0,
     app_id = inf_app_id d\<rparr>"

definition getTokenInfoFromToken ::
    "world \<Rightarrow> string \<Rightarrow> string option \<Rightarrow> string option \<Rightarrow> token_info comp" where
  "getTokenInfoFromToken w token appId' appSecret =
    catchE
      (getTokenInfoFromDebugToken w token
         (Some (case (truthy appId', truthy appSecret) of
                  (Some a, Some b) \<Rightarrow> createAppToken a b
                | _ \<Rightarrow> token)))
      (\<lambda>error.
         bindE
           (catchE
              (bindE (fetch w (AccessTokenInfoReq token)) (\<lambda>response.
                 if 200 \<le> rcode response \<and> rcode response < 300 then
                   bindE (JSON_parse response) (\<lambda>data.
                     returnE (Some (legacyTokenInfo (infoData data))))
                 else returnE None))
              (\<lambda>fallbackError. returnE None))
           (\<lambda>r. case r of Some info \<Rightarrow> returnE info | None \<Rightarrow> throwE error))"

definition isTokenValid :: "world \<Rightarrow> string option \<Rightarrow> bool comp" where
  "isTokenValid w token =
    catchE
      (case truthy token of
         Some t \<Rightarrow>
           bindE (getTokenInfoFromToken w t None None) (\<lambda>tokenInfo.
             case isValid tokenInfo of
               Some b \<Rightarrow> returnE b
             | None \<Rightarrow>
                 (case expiresAt tokenInfo of
                    Some e \<Rightarrow>
                      if e > 0 then bindE nowSec (\<lambda>now. returnE (e - now > 24 * 60 * 60))
                      else returnE True
                  | None \<Rightarrow> returnE True))
       | None \<Rightarrow>
           bindE (getProperty TOKEN_EXPIRES_AT) (\<lambda>stored.
             case truthy stored of
               None \<Rightarrow> returnE False
             | Some t \<Rightarrow>
                 bindE nowMs (\<lambda>now.
                   returnE (case parseInt t of
                              None \<Rightarrow> False
                            | Some expires \<Rightarrow> expires - now > 24 * 60 * 60 * 1000))))
      (\<lambda>error. returnE False)"

text \<open>\<^verbatim>\<open>isTokenValid\<close> of src/TokenManager.js (lines 171--181): the stored check only.\<close>

definition TM_isTokenValid :: "bool comp" where
  "TM_isTokenValid =
    bindE (getProperty TOKEN_EXPIRES_AT) (\<lambda>stored.
      case truthy stored of
        None \<Rightarrow> returnE False
      | Some t \<Rightarrow>
          bindE nowMs (\<lambda>now.
            returnE (case parseInt t of
                       None \<Rightarrow> False
                     | Some expires \<Rightarrow> expires - now > 24 * 60 * 60 * 1000)))"

section \<open>Page tokens, exchange and the settings sheet (src/unnamed/part_003, part_002)\<close>

definition pagesData :: "payload \<Rightarrow> page list option" where
  "pagesData j = (case j of PagesJson ps \<Rightarrow> ps | _ \<Rightarrow> None)"

definition getPageTokens :: "world \<Rightarrow> string \<Rightarrow> page list comp" where
  "getPageTokens w userToken =
    bindE (fetch w (MeAccountsReq userToken)) (\<lambda>response.
      if rcode response < 200 \<or> 300 \<le> rcode response then
        throwE (PageLookupFailed (rcode response) (rtext response))
      else
        bindE (JSON_parse response) (\<lambda>data.
          case pagesData data of
            None \<Rightarrow> throwE PageListMissing
          | Some ps \<Rightarrow> returnE ps))"

record long_token =
  accessToken :: string
  tokenExpiresIn :: int
  tokenType :: string

definition exchangeData :: "payload \<Rightarrow> exchange_data" where
  "exchangeData j = (case j of ExchangeJson d \<Rightarrow> d
     | _ \<Rightarrow> \<lparr>exc_access_token = None, exc_expires_in = None, exc_token_type = None\<rparr>)"

definition exchangeToLongLivedTokenWithCredentials ::
    "world \<Rightarrow> string \<Rightarrow> string \<Rightarrow> string \<Rightarrow> long_token comp" where
  "exchangeToLongLivedTokenWithCredentials w userToken appId' appSecret =
    bindE (fetch w (ExchangeTokenReq appId' appSecret userToken)) (\<lambda>response.
      if rcode response < 200 \<or> 300 \<le> rcode response then
        (if rcode response = 400 then throwE BadAppCredentials
         else if rcode response = 401 then throwE UserTokenRejected
         else throwE (ExchangeFailed (rcode response) (rtext response)))
      else
        bindE (JSON_parse response) (\<lambda>data.
          case truthy (exc_access_token (exchangeData data)) of
            None \<Rightarrow> throwE NoLongLivedToken
          | Some t \<Rightarrow>
              returnE \<lparr>accessToken = t,
                       tokenExpiresIn = orNum (exc_expires_in (exchangeData data)) 0,
                       tokenType = orStr (exc_token_type (exchangeData data)) ''bearer''\<rparr>))"

text \<open>\<^verbatim>\<open>String.prototype.trim\<close>, on the ASCII white space.\<close>

definition trim :: "string \<Rightarrow> string" where
  "trim t = rev (dropWhile isSpace (rev (dropWhile isSpace t)))"

text \<open>
  The settings sheet holds rows (key, value, notes). The sheet's Japanese labels and notes
  are written here by ASCII stand-ins: \<open>''long_token''\<close>, \<open>''page_token''\<close>,
  \<open>''page_id''\<close>, \<open>''page_name''\<close>, \<open>''token_expiry''\<close>, \<open>''last_updated''\<close>, with the
  note \<open>''auto''\<close>. A missing sheet makes \<^verbatim>\<open>getSheetByName\<close> return \<^verbatim>\<open>null\<close>, and
  the next member access throws.
\<close>

fun upsertRows ::
    "string \<Rightarrow> string \<Rightarrow> string \<Rightarrow> (string \<times> string \<times> string) list
      \<Rightarrow> (string \<times> string \<times> string) list" where
  "upsertRows key v notes [] = [(key, v, notes)]"
| "upsertRows key v notes ((k, v0, n0) # rows) =
     (if trim k = key then (k, v, notes) # rows else (k, v0, n0) # upsertRows key v notes rows)"

definition upsertSetting :: "string \<Rightarrow> string \<Rightarrow> string \<Rightarrow> unit comp" where
  "upsertSetting key v notes = (\<lambda>s.
     case settings s of
       None \<Rightarrow> (Throw TypeError, s)
     | Some rows \<Rightarrow> (Ret (), s\<lparr>settings := Some (upsertRows key v notes rows)\<rparr>))"

fun upsertSettings :: "(string \<times> string \<times> string) list \<Rightarrow> unit comp" where
  "upsertSettings [] = returnE ()"
| "upsertSettings ((k, v, n) # rest) = bindE (upsertSetting k v n) (\<lambda>_. upsertSettings rest)"

text \<open>
  The \<^verbatim>\<open>try\<close> blocks of lines 315--323 and 366--375: the rows are upserted in order; a
  failure is logged and ignored.
\<close>

definition writeSettingsSheet :: "(string \<times> string \<times> string) list \<Rightarrow> unit comp" where
  "writeSettingsSheet rows = catchE (upsertSettings rows) (\<lambda>e. returnE ())"

section \<open>The refresh protocol and onboarding (src/unnamed/part_003)\<close>

text \<open>A millisecond value the script tests for truth: \<^verbatim>\<open>null\<close> and \<open>0\<close> are falsy.\<close>

fun truthyMs :: "int option \<Rightarrow> int option" where
  "truthyMs None = None"
| "truthyMs (Some n) = (if n = 0 then None else Some n)"

text \<open>Lines 298--302 and 344--348: the expiry \<^verbatim>\<open>/debug_token\<close> reports, in milliseconds.\<close>

definition infoExpiresAtMs :: "token_info \<Rightarrow> int option" where
  "infoExpiresAtMs info =
    (if positive (dataAccessExpiresAt info) then
       map_option (\<lambda>d. d * 1000) (dataAccessExpiresAt info)
     else if positive (expiresAt info) then
       map_option (\<lambda>e. e * 1000) (expiresAt info)
     else None)"

definition refreshToken :: "world \<Rightarrow> bool comp" where
  "refreshToken w =
    catchE
      (bindE (getProperty USER_ACCESS_TOKEN) (\<lambda>userToken.
       bindE (getProperty APP_ID) (\<lambda>appId'.
       bindE (getProperty APP_SECRET) (\<lambda>appSecret.
       case truthy userToken of
         None \<Rightarrow> throwE NoUserToken
       | Some ut \<Rightarrow>
          (case (truthy appId', truthy appSecret) of
             (Some aid, Some sec) \<Rightarrow>
               bindE (exchangeToLongLivedTokenWithCredentials w ut aid sec) (\<lambda>tokenInfo.
               bindE (getPageTokens w (accessToken tokenInfo)) (\<lambda>pages.
               case pages of
                 [] \<Rightarrow> throwE NoManagedPages
               | pg # _ \<Rightarrow>
                   bindE (catchE
                            (bindE (getTokenInfoFromToken w (accessToken tokenInfo) appId' appSecret)
                               (\<lambda>info. returnE (infoExpiresAtMs info)))
                            (\<lambda>e. returnE None)) (\<lambda>fromInfo.
                   bindE nowMs (\<lambda>now.
                   let expiresAtMs =
                         (if truthyMs fromInfo = None \<and> tokenExpiresIn tokenInfo \<noteq> 0
                          then Some (now + tokenExpiresIn tokenInfo * 1000) else fromInfo)
                   in
                   bindE (setProperties
                            [(USER_ACCESS_TOKEN, accessToken tokenInfo),
                             (PAGE_ACCESS_TOKEN, p_access_token pg),
                             (PAGE_ID, p_id pg),
                             (PAGE_NAME, p_name pg),
                             (TOKEN_EXPIRES_AT,
                                case truthyMs expiresAtMs of
                                  Some e \<Rightarrow> String_of e | None \<Rightarrow> [])]) (\<lambda>_.
                   bindE (writeSettingsSheet
                               ([(''long_token'', accessToken tokenInfo, ''auto''),
                                 (''page_token'', p_access_token pg, ''auto'')]
                                @ (if p_id pg \<noteq> [] then [(''page_id'', p_id pg, ''auto'')] else [])
                                @ (if p_name pg \<noteq> [] then [(''page_name'', p_name pg, ''auto'')] else [])
                                @ (case truthyMs expiresAtMs of
                                     Some e \<Rightarrow> [(''token_expiry'', toLocaleString w e, ''auto'')]
                                   | None \<Rightarrow> [])
                                @ [(''last_updated'', toLocaleString w now, ''auto'')])) (\<lambda>_.
                   returnE True))))))
           | _ \<Rightarrow>
               bindE (getPageTokens w ut) (\<lambda>pages.
               case pages of
                 [] \<Rightarrow> throwE NoManagedPages
               | pg # _ \<Rightarrow>
                   bindE (catchE
                            (bindE (getTokenInfoFromToken w ut appId' appSecret)
                               (\<lambda>info. returnE (infoExpiresAtMs info)))
                            (\<lambda>e. returnE None)) (\<lambda>expiresAtMs.
                   bindE (getProperty TOKEN_EXPIRES_AT) (\<lambda>stored.
                   bindE (setProperties
                            [(PAGE_ACCESS_TOKEN, p_access_token pg),
                             (PAGE_ID, p_id pg),
                             (PAGE_NAME, p_name pg),
                             (TOKEN_EXPIRES_AT,
                                case truthyMs expiresAtMs of
                                  Some e \<Rightarrow> String_of e | None \<Rightarrow> orStr stored [])]) (\<lambda>_.
                   bindE nowMs (\<lambda>now.
                   bindE (writeSettingsSheet
                               ((if p_id pg \<noteq> [] then [(''page_id'', p_id pg, ''auto'')] else [])
                                @ (if p_name pg \<noteq> [] then [(''page_name'', p_name pg, ''auto'')] else [])
                                @ [(''page_token'', p_access_token pg, ''auto'')]
                                @ (case truthyMs expiresAtMs of
                                     Some e \<Rightarrow> [(''token_expiry'', toLocaleString w e, ''auto'')]
                                   | None \<Rightarrow> [])
                                @ [(''last_updated'', toLocaleString w now, ''auto'')])) (\<lambda>_.
                   returnE True)))))))))))
      (\<lambda>error. returnE False)"

definition saveAppSettings :: "string \<Rightarrow> string \<Rightarrow> unit comp" where
  "saveAppSettings appId' appSecret = setProperties [(APP_ID, appId'), (APP_SECRET, appSecret)]"

record setup_ok =
  pageName :: string
  pageId :: string
  savedExpiresAt :: int
  longLived :: bool

datatype setup_result = SetupOk setup_ok | SetupFailed error

definition setupTokensFromLongToken :: "world \<Rightarrow> string \<Rightarrow> setup_result comp" where
  "setupTokensFromLongToken w longLivedToken =
    catchE
      (if longLivedToken = [] then throwE NoLongTokenEntered
       else
         bindE (getTokenInfoFromToken w longLivedToken None None) (\<lambda>tokenInfo.
         bindE (getPageTokens w longLivedToken) (\<lambda>pages.
         case pages of
           [] \<Rightarrow> throwE NoManagedPages
         | pg # _ \<Rightarrow>
             bindE nowMs (\<lambda>now.
             let expiresAtMs =
                   (if positive (expiresAt tokenInfo) then
                      (case expiresAt tokenInfo of Some e \<Rightarrow> e * 1000 | None \<Rightarrow> 0)
                    else if expiresIn tokenInfo > 0 then now + expiresIn tokenInfo * 1000
                    else now + (60 * 24 * 60 * 60) * 1000)
             in
             bindE (setProperties
                      [(USER_ACCESS_TOKEN, longLivedToken),
                       (PAGE_ACCESS_TOKEN, p_access_token pg),
                       (PAGE_ID, p_id pg),
                       (PAGE_NAME, p_name pg),
                       (TOKEN_EXPIRES_AT, String_of expiresAtMs),
                       (APP_ID, orStr (appId tokenInfo) []),
                       (APP_SECRET, [])]) (\<lambda>_.
             returnE (SetupOk \<lparr>pageName = p_name pg, pageId = p_id pg,
                                savedExpiresAt = expiresAtMs,
                                longLived = isLongLived tokenInfo\<rparr>))))))
      (\<lambda>error. returnE (SetupFailed error))"

definition checkAndRefreshToken :: "world \<Rightarrow> unit comp" where
  "checkAndRefreshToken w =
    catchE
      (bindE (getProperty USER_ACCESS_TOKEN) (\<lambda>userToken.
       bindE (case truthy userToken of
                Some ut \<Rightarrow> isTokenValid w (Some ut)
              | None \<Rightarrow> returnE False) (\<lambda>isValidByApi.
       bindE (isTokenValid w None) (\<lambda>isValidByStorage.
       if \<not> isValidByApi \<or> \<not> isValidByStorage then
         bindE (refreshToken w) (\<lambda>success. returnE ())
       else returnE ()))))
      (\<lambda>error. returnE ())"

section \<open>Short-lived token onboarding (src/TokenManager.js)\<close>

definition getAppInfoFromToken :: "world \<Rightarrow> string \<Rightarrow> (string \<times> string option) comp" where
  "getAppInfoFromToken w shortLivedToken =
    catchE
      (bindE (fetch w (AccessTokenInfoReq shortLivedToken)) (\<lambda>response.
         if rcode response < 200 \<or> 300 \<le> rcode response then
           (if rcode response = 400 then throwE AppInfoInvalidToken
            else if rcode response = 401 then throwE AppInfoAuthFailed
            else throwE (AppInfoFailed (rcode response) (rtext response)))
         else
           bindE (JSON_parse response) (\<lambda>data.
             case truthy (inf_app_id (infoData data)) of
               None \<Rightarrow> throwE NoAppId
             | Some a \<Rightarrow> returnE (a, truthy (inf_app_secret (infoData data))))))
      (\<lambda>error. throwE error)"

text \<open>\<^verbatim>\<open>getTokenInfoFromToken\<close> of src/TokenManager.js (lines 129--141).\<close>

definition TM_getTokenInfoFromToken :: "world \<Rightarrow> string \<Rightarrow> info_data comp" where
  "TM_getTokenInfoFromToken w token =
    bindE (fetch w (AccessTokenInfoReq token)) (\<lambda>response.
      if rcode response < 200 \<or> 300 \<le> rcode response then
        throwE (TokenInfoFailed (rcode response) (rtext response))
      else bindE (JSON_parse response) (\<lambda>data. returnE (infoData data)))"

text \<open>The fallback value of lines 73--78, 94--99 and 115--120: the short token itself.\<close>

definition shortTokenAsIs :: "world \<Rightarrow> string \<Rightarrow> long_token comp" where
  "shortTokenAsIs w shortLivedToken =
    bindE (TM_getTokenInfoFromToken w shortLivedToken) (\<lambda>tokenInfo.
      returnE \<lparr>accessToken = shortLivedToken,
               tokenExpiresIn = orNum (inf_expires_in tokenInfo) 0,
               tokenType = ''bearer''\<rparr>)"

definition exchangeToLongLivedToken :: "world \<Rightarrow> string \<Rightarrow> long_token comp" where
  "exchangeToLongLivedToken w shortLivedToken =
    catchE
      (bindE (getAppInfoFromToken w shortLivedToken) (\<lambda>appInfo.
         case snd appInfo of
           None \<Rightarrow> shortTokenAsIs w shortLivedToken
         | Some secret \<Rightarrow>
             bindE (fetch w (ExchangeTokenReq (fst appInfo) secret shortLivedToken)) (\<lambda>response.
               if rcode response < 200 \<or> 300 \<le> rcode response then
                 shortTokenAsIs w shortLivedToken
               else
                 bindE (JSON_parse response) (\<lambda>data.
                   case truthy (exc_access_token (exchangeData data)) of
                     None \<Rightarrow> throwE NoLongLivedToken
                   | Some t \<Rightarrow>
                       returnE \<lparr>accessToken = t,
                                tokenExpiresIn = orNum (exc_expires_in (exchangeData data)) 0,
                                tokenType = orStr (exc_token_type (exchangeData data)) ''bearer''\<rparr>))))
      (\<lambda>error. shortTokenAsIs w shortLivedToken)"

text \<open>Lines 369--381: the app information is saved when it can be read; a failure is ignored.\<close>

definition recordAppInfo :: "world \<Rightarrow> string \<Rightarrow> unit comp" where
  "recordAppInfo w shortLivedToken =
    catchE
      (bindE (getAppInfoFromToken w shortLivedToken) (\<lambda>appInfo.
       bindE (saveAppSettings (fst appInfo) (orStr (snd appInfo) [])) (\<lambda>_.
       returnE ())))
      (\<lambda>appError. returnE ())"

definition setupTokensFromShortLived :: "world \<Rightarrow> string \<Rightarrow> setup_result comp" where
  "setupTokensFromShortLived w shortLivedToken =
    catchE
      (bindE (TM_getTokenInfoFromToken w shortLivedToken) (\<lambda>tokenInfo.
       bindE (recordAppInfo w shortLivedToken) (\<lambda>_.
       bindE (exchangeToLongLivedToken w shortLivedToken) (\<lambda>longLivedTokenInfo.
       bindE (getPageTokens w (accessToken longLivedTokenInfo)) (\<lambda>pages.
       case pages of
         [] \<Rightarrow> throwE NoManagedPages
       | pg # _ \<Rightarrow>
           bindE nowMs (\<lambda>now.
           let expiresIn' =
                 (if tokenExpiresIn longLivedTokenInfo > 0
                      \<and> tokenExpiresIn longLivedTokenInfo > 3600
                  then tokenExpiresIn longLivedTokenInfo
                  else 60 * 24 * 60 * 60);
               expiresAt' = now + expiresIn' * 1000
           in
           bindE (setProperties
                    [(USER_ACCESS_TOKEN, accessToken longLivedTokenInfo),
                     (PAGE_ACCESS_TOKEN, p_access_token pg),
                     (PAGE_ID, p_id pg),
                     (PAGE_NAME, p_name pg),
                     (TOKEN_EXPIRES_AT, String_of expiresAt')]) (\<lambda>_.
           returnE (SetupOk \<lparr>pageName = p_name pg, pageId = p_id pg,
                              savedExpiresAt = expiresAt',
                              longLived = (tokenExpiresIn longLivedTokenInfo > 0)\<rparr>))))))))
      (\<lambda>error. returnE (SetupFailed error))"

section \<open>The self-retrying API calls (src/unnamed/part_000)\<close>

text \<open>\<^verbatim>\<open>responseText.includes(sub)\<close>\<close>

fun includesStr :: "string \<Rightarrow> string \<Rightarrow> bool" where
  "includesStr [] sub = (sub = [])"
| "includesStr (c # cs) sub = (take (length sub) (c # cs) = sub \<or> includesStr cs sub)"

text \<open>A property read back and put into a URL: \<^verbatim>\<open>null\<close> is written \<open>null\<close>.\<close>

definition tokenArg :: "string option \<Rightarrow> string" where
  "tokenArg t = (case t of Some x \<Rightarrow> x | None \<Rightarrow> ''null'')"

definition commentsData :: "payload \<Rightarrow> comment list" where
  "commentsData j = (case j of CommentsJson (Some cs) \<Rightarrow> cs | _ \<Rightarrow> [])"

definition postsData :: "payload \<Rightarrow> post_item list" where
  "postsData j = (case j of PostsJson (Some ps) \<Rightarrow> ps | _ \<Rightarrow> [])"

definition idData :: "payload \<Rightarrow> string option \<times> string option" where
  "idData j = (case j of IdJson i n \<Rightarrow> (truthy i, n) | _ \<Rightarrow> (None, None))"

definition permalinkData :: "payload \<Rightarrow> string option" where
  "permalinkData j = (case j of PermalinkJson u \<Rightarrow> u | _ \<Rightarrow> None)"

text \<open>
  Each function calls itself after a successful refresh, with no bound of its own. The
  first argument after the world is the recursion depth left; at depth 0 the call does
  not return (\<open>Timeout\<close>). The recursive call stands inside the \<^verbatim>\<open>try\<close> block, so what
  it throws is caught and wrapped like a failure of the refresh itself.
\<close>

fun fetchComments :: "world \<Rightarrow> nat \<Rightarrow> string \<Rightarrow> string \<Rightarrow> int \<Rightarrow> comment list comp" where
  "fetchComments w 0 postId token limit = (\<lambda>s. (Timeout, s))"
| "fetchComments w (Suc n) postId token limit =
    bindE (fetch w (CommentsReq postId (min 500 (orNum (Some limit) 500)) token)) (\<lambda>res.
      if rcode res < 200 \<or> 300 \<le> rcode res then
        (if rcode res = 400 \<and> includesStr (rtext res) ''Session has expired'' then
           catchE
             (bindE (refreshToken w) (\<lambda>refreshSuccess.
                if refreshSuccess then
                  bindE (getProperty PAGE_ACCESS_TOKEN) (\<lambda>newToken.
                    fetchComments w n postId (tokenArg newToken) limit)
                else throwE RefreshReturnedFalse))
             (\<lambda>refreshError. throwE (CredentialRefreshFailed refreshError))
         else throwE (UpstreamCallFailed ''GET comments'' (rcode res) (rtext res)))
      else bindE (JSON_parse res) (\<lambda>j. returnE (commentsData j)))"

fun fetchCommentsSince ::
    "world \<Rightarrow> nat \<Rightarrow> string \<Rightarrow> string \<Rightarrow> int \<Rightarrow> int \<Rightarrow> comment list comp" where
  "fetchCommentsSince w 0 postId token sinceMs limit = (\<lambda>s. (Timeout, s))"
| "fetchCommentsSince w (Suc n) postId token sinceMs limit =
    bindE (fetch w (CommentsSinceReq postId (sinceMs div 1000)
                      (min 500 (orNum (Some limit) 500)) token)) (\<lambda>res.
      if rcode res < 200 \<or> 300 \<le> rcode res then
        (if rcode res = 400 \<and> includesStr (rtext res) ''Session has expired'' then
           catchE
             (bindE (refreshToken w) (\<lambda>refreshSuccess.
                if refreshSuccess then
                  bindE (getProperty PAGE_ACCESS_TOKEN) (\<lambda>newToken.
                    fetchCommentsSince w n postId (tokenArg newToken) sinceMs limit)
                else throwE RefreshReturnedFalse))
             (\<lambda>refreshError. throwE (CredentialRefreshFailed refreshError))
         else throwE (UpstreamCallFailed ''GET comments(since)'' (rcode res) (rtext res)))
      else bindE (JSON_parse res) (\<lambda>j. returnE (commentsData j)))"

fun postReply :: "world \<Rightarrow> nat \<Rightarrow> string \<Rightarrow> string \<Rightarrow> string \<Rightarrow> string comp" where
  "postReply w 0 commentId message token = (\<lambda>s. (Timeout, s))"
| "postReply w (Suc n) commentId message token =
    bindE (fetch w (ReplyReq commentId message token)) (\<lambda>res.
      if rcode res < 200 \<or> 300 \<le> rcode res then
        (if rcode res = 400 \<and> includesStr (rtext res) ''Session has expired'' then
           catchE
             (bindE (refreshToken w) (\<lambda>refreshSuccess.
                if refreshSuccess then
                  bindE (getProperty PAGE_ACCESS_TOKEN) (\<lambda>newToken.
                    postReply w n commentId message (tokenArg newToken))
                else throwE RefreshReturnedFalse))
             (\<lambda>refreshError. throwE (CredentialRefreshFailed refreshError))
         else throwE (UpstreamCallFailed ''POST reply'' (rcode res) (rtext res)))
      else
        bindE (JSON_parse res) (\<lambda>j.
          case fst (idData j) of
            None \<Rightarrow> throwE (UnexpectedResponse ''POST reply'' (rtext res))
          | Some i \<Rightarrow> returnE i))"

fun createPagePost :: "world \<Rightarrow> nat \<Rightarrow> string \<Rightarrow> string \<Rightarrow> (string \<times> string) comp" where
  "createPagePost w 0 message token = (\<lambda>s. (Timeout, s))"
| "createPagePost w (Suc n) message token =
    bindE (fetch w (FeedReq message token)) (\<lambda>res.
      if rcode res < 200 \<or> 300 \<le> rcode res then
        (if rcode res = 400 \<and> includesStr (rtext res) ''Session has expired'' then
           catchE
             (bindE (refreshToken w) (\<lambda>refreshSuccess.
                if refreshSuccess then
                  bindE (getProperty PAGE_ACCESS_TOKEN) (\<lambda>newToken.
                    createPagePost w n message (tokenArg newToken))
                else throwE RefreshReturnedFalse))
             (\<lambda>refreshError. throwE (CredentialRefreshFailed refreshError))
         else throwE (UpstreamCallFailed ''POST feed'' (rcode res) (rtext res)))
      else
        bindE (JSON_parse res) (\<lambda>j.
          case fst (idData j) of
            None \<Rightarrow> throwE (UnexpectedResponse ''POST feed'' (rtext res))
          | Some i \<Rightarrow>
              bindE (catchE
                       (bindE (fetch w (PermalinkReq i token)) (\<lambda>detailRes.
                          if 200 \<le> rcode detailRes \<and> rcode detailRes < 300 then
                            bindE (JSON_parse detailRes) (\<lambda>d.
                              returnE (orStr (permalinkData d) []))
                          else returnE []))
                       (\<lambda>e. returnE [])) (\<lambda>permalink.
              returnE (i, permalink))))"

fun getPageInfo :: "world \<Rightarrow> nat \<Rightarrow> string \<Rightarrow> (string \<times> string) comp" where
  "getPageInfo w 0 token = (\<lambda>s. (Timeout, s))"
| "getPageInfo w (Suc n) token =
    bindE (fetch w (MeReq token)) (\<lambda>res.
      if rcode res < 200 \<or> 300 \<le> rcode res then
        (if rcode res = 400 \<and> includesStr (rtext res) ''Session has expired'' then
           catchE
             (bindE (refreshToken w) (\<lambda>refreshSuccess.
                if refreshSuccess then
                  bindE (getProperty PAGE_ACCESS_TOKEN) (\<lambda>newToken.
                    getPageInfo w n (tokenArg newToken))
                else throwE RefreshReturnedFalse))
             (\<lambda>refreshError. throwE (CredentialRefreshFailed refreshError))
         else throwE (UpstreamCallFailed ''GET /me'' (rcode res) (rtext res)))
      else
        bindE (JSON_parse res) (\<lambda>j.
          case fst (idData j) of
            None \<Rightarrow> throwE MissingPageId
          | Some i \<Rightarrow> returnE (i, orStr (snd (idData j)) [])))"

definition appendPosts :: "post_item list \<Rightarrow> unit comp" where
  "appendPosts ps = (\<lambda>s. (Ret (),
     s\<lparr>posts := posts s @ map (\<lambda>p. (orStr (po_id p) [], orStr (po_permalink_url p) [],
                                      orStr (po_created_time p) [])) ps\<rparr>))"

fun fetchRecentPosts :: "world \<Rightarrow> nat \<Rightarrow> string \<Rightarrow> int \<Rightarrow> int \<Rightarrow> string list comp" where
  "fetchRecentPosts w 0 token lookbackDays maxCount = (\<lambda>s. (Timeout, s))"
| "fetchRecentPosts w (Suc n) token lookbackDays maxCount =
    bindE nowMs (\<lambda>now.
    bindE (fetch w (PostsReq ((now - lookbackDays * 24 * 60 * 60 * 1000) div 1000)
                      maxCount token)) (\<lambda>res.
      if rcode res < 200 \<or> 300 \<le> rcode res then
        (if rcode res = 400 \<and> includesStr (rtext res) ''Session has expired'' then
           catchE
             (bindE (refreshToken w) (\<lambda>refreshSuccess.
                if refreshSuccess then
                  bindE (getProperty PAGE_ACCESS_TOKEN) (\<lambda>newToken.
                    fetchRecentPosts w n (tokenArg newToken) lookbackDays maxCount)
                else throwE RefreshReturnedFalse))
             (\<lambda>refreshError. throwE (CredentialRefreshFailed refreshError))
         else throwE (UpstreamCallFailed ''GET /me/posts'' (rcode res) (rtext res)))
      else
        bindE (JSON_parse res) (\<lambda>j.
        bindE (if postsData j \<noteq> [] then appendPosts (postsData j) else returnE ()) (\<lambda>_.
        returnE (List.map_filter (\<lambda>p. truthy (po_id p)) (postsData j))))))"

text \<open>
  \<^verbatim>\<open>fetchRecentReels\<close> (lines 307--362): the page id comes from \<^verbatim>\<open>getPageInfo\<close>, a failed
  answer without the session-expired signature gives the empty list, and the outer
  \<^verbatim>\<open>catch\<close> turns every error raised inside, those of the retry block included, into
  the empty list. The page lookup runs at the depth of the call.
\<close>

fun fetchRecentReels :: "world \<Rightarrow> nat \<Rightarrow> string \<Rightarrow> int \<Rightarrow> int \<Rightarrow> string list comp" where
  "fetchRecentReels w 0 token lookbackDays maxCount = (\<lambda>s. (Timeout, s))"
| "fetchRecentReels w (Suc n) token lookbackDays maxCount =
    catchE
      (bindE (getPageInfo w (Suc n) token) (\<lambda>pageInfo.
       bindE nowMs (\<lambda>now.
       bindE (fetch w (ReelsReq (fst pageInfo)
                         ((now - lookbackDays * 24 * 60 * 60 * 1000) div 1000)
                         maxCount token)) (\<lambda>res.
         if rcode res < 200 \<or> 300 \<le> rcode res then
           (if rcode res = 400 \<and> includesStr (rtext res) ''Session has expired'' then
              catchE
                (bindE (refreshToken w) (\<lambda>refreshSuccess.
                   if refreshSuccess then
                     bindE (getProperty PAGE_ACCESS_TOKEN) (\<lambda>newToken.
                       fetchRecentReels w n (tokenArg newToken) lookbackDays maxCount)
                   else throwE RefreshReturnedFalse))
                (\<lambda>refreshError. throwE (CredentialRefreshFailed refreshError))
            else returnE [])
         else
           bindE (JSON_parse res) (\<lambda>j.
           bindE (if postsData j \<noteq> [] then appendPosts (postsData j) else returnE ()) (\<lambda>_.
           returnE (List.map_filter (\<lambda>p. truthy (po_id p)) (postsData j))))))))
      (\<lambda>e. returnE [])"

section \<open>Comment processing (src/unnamed/part_001, src/SheetManager.js)\<close>

record rule =
  r_enabled :: bool
  r_keyword :: string
  r_template :: string

text \<open>\<^verbatim>\<open>toLowerCase\<close>, on the ASCII letters.\<close>

definition lowerChar :: "char \<Rightarrow> char" where
  "lowerChar c = (let k = (of_char c :: nat) in if 65 \<le> k \<and> k \<le> 90 then char_of (k + 32) else c)"

definition toLowerCase :: "string \<Rightarrow> string" where
  "toLowerCase t = map lowerChar t"

definition findMatchingRule :: "string \<Rightarrow> rule list \<Rightarrow> rule option" where
  "findMatchingRule message rules =
    find (\<lambda>r. r_enabled r \<and> r_keyword r \<noteq> []
               \<and> includesStr (toLowerCase message) (toLowerCase (r_keyword r))) rules"

text \<open>
  \<^verbatim>\<open>t.replaceAll(pat, rep)\<close> for a non-empty pattern; \<open>skip\<close> counts the characters of
  a match still to be dropped.
\<close>

fun replaceFrom :: "nat \<Rightarrow> string \<Rightarrow> string \<Rightarrow> string \<Rightarrow> string" where
  "replaceFrom skip [] pat rep = []"
| "replaceFrom skip (c # cs) pat rep =
     (if 0 < skip then replaceFrom (skip - 1) cs pat rep
      else if take (length pat) (c # cs) = pat then rep @ replaceFrom (length pat - 1) cs pat rep
      else c # replaceFrom 0 cs pat rep)"

definition generateReply :: "string \<Rightarrow> string \<Rightarrow> string" where
  "generateReply template name = replaceFrom 0 template ''{name}'' name"

definition appendProcessed :: "string \<Rightarrow> string option \<Rightarrow> unit comp" where
  "appendProcessed commentId createdTime = (\<lambda>s. (Ret (),
     s\<lparr>processed := processed s @ [(commentId, orStr createdTime [])]\<rparr>))"

definition logComment ::
    "string \<Rightarrow> string \<Rightarrow> string \<Rightarrow> string \<Rightarrow> string \<Rightarrow> string \<Rightarrow> string \<Rightarrow> error option
      \<Rightarrow> unit comp" where
  "logComment postId commentId name message matchedKeyword replyText status err = (\<lambda>s. (Ret (),
     s\<lparr>logs := logs s @
        [\<lparr>l_postId = postId, l_commentId = commentId, l_name = name, l_message = message,
          l_keyword = matchedKeyword, l_replyText = replyText, l_status = status,
          l_error = err\<rparr>]\<rparr>))"

definition loadProcessedIds :: "string set comp" where
  "loadProcessedIds = (\<lambda>s. (Ret (set (map (\<lambda>r. trim (fst r))
                                  (filter (\<lambda>r. fst r \<noteq> []) (processed s)))), s))"

definition loadRepliedCommentIdsSet :: "string set comp" where
  "loadRepliedCommentIdsSet = (\<lambda>s. (Ret (set (map (\<lambda>r. trim (l_commentId r))
       (filter (\<lambda>r. trim (l_commentId r) \<noteq> [] \<and> trim (l_status r) = ''replied'') (logs s)))), s))"

text \<open>\<^verbatim>\<open>Utilities.sleep(ms)\<close>\<close>

definition sleep :: "nat \<Rightarrow> unit comp" where
  "sleep ms = (\<lambda>s. (Ret (), s\<lparr>clock := clock s + ms\<rparr>))"

text \<open>The body of the \<^verbatim>\<open>for\<close> loop of \<^verbatim>\<open>processComments\<close>, over the fetched comments.\<close>

fun processLoop ::
    "world \<Rightarrow> nat \<Rightarrow> string \<Rightarrow> string \<Rightarrow> rule list \<Rightarrow> string set \<Rightarrow> comment list \<Rightarrow> unit comp" where
  "processLoop w n postId token rules processedSet [] = returnE ()"
| "processLoop w n postId token rules processedSet (comment # rest) =
    (if c_id comment \<in> processedSet then processLoop w n postId token rules processedSet rest
     else
       (case findMatchingRule (orStr (c_message comment) []) rules of
          None \<Rightarrow>
            bindE (appendProcessed (c_id comment) (c_created_time comment)) (\<lambda>_.
            bindE (logComment postId (c_id comment) (orStr (c_from_name comment) [])
                     (orStr (c_message comment) []) [] [] ''no_match'' None) (\<lambda>_.
            processLoop w n postId token rules processedSet rest))
        | Some matchedRule \<Rightarrow>
            bindE (catchE
                     (bindE (postReply w n (c_id comment)
                               (generateReply (r_template matchedRule)
                                  (orStr (c_from_name comment) [])) token) (\<lambda>_.
                      bindE (appendProcessed (c_id comment) (c_created_time comment)) (\<lambda>_.
                      bindE (logComment postId (c_id comment) (orStr (c_from_name comment) [])
                               (orStr (c_message comment) []) (r_keyword matchedRule)
                               (generateReply (r_template matchedRule)
                                  (orStr (c_from_name comment) [])) ''replied'' None) (\<lambda>_.
                      sleep 300))))
                     (\<lambda>error.
                        logComment postId (c_id comment) (orStr (c_from_name comment) [])
                          (orStr (c_message comment) []) (r_keyword matchedRule)
                          (generateReply (r_template matchedRule)
                             (orStr (c_from_name comment) [])) ''error'' (Some error))) (\<lambda>_.
            processLoop w n postId token rules processedSet rest)))"

definition processComments ::
    "world \<Rightarrow> nat \<Rightarrow> string \<Rightarrow> string \<Rightarrow> int \<Rightarrow> rule list \<Rightarrow> string set \<Rightarrow> unit comp" where
  "processComments w n postId token fetchLimit rules processedSet =
    bindE (fetchComments w n postId token fetchLimit) (\<lambda>comments.
      processLoop w n postId token rules processedSet comments)"

text \<open>
  \<^verbatim>\<open>fetchAndRespond\<close> (main script of src, the file with the katakana name, lines
  214--234). The settings sheet, the rules sheet and
  \<^verbatim>\<open>getTargetPostIds\<close> are read before the loop; their results are the arguments
  \<open>fetchLimit\<close>, \<open>rules\<close> and \<open>postIds\<close>.
\<close>

fun processPosts ::
    "world \<Rightarrow> nat \<Rightarrow> string \<Rightarrow> int \<Rightarrow> rule list \<Rightarrow> string set \<Rightarrow> string list \<Rightarrow> unit comp" where
  "processPosts w n token fetchLimit rules processedSet [] = returnE ()"
| "processPosts w n token fetchLimit rules processedSet (postId # rest) =
    bindE (processComments w n postId token fetchLimit rules processedSet) (\<lambda>_.
      processPosts w n token fetchLimit rules processedSet rest)"

definition fetchAndRespond :: "world \<Rightarrow> nat \<Rightarrow> int \<Rightarrow> rule list \<Rightarrow> string list \<Rightarrow> unit comp" where
  "fetchAndRespond w n fetchLimit rules postIds =
    bindE (getProperty PAGE_ACCESS_TOKEN) (\<lambda>token.
      case truthy token of
        None \<Rightarrow> throwE NoAccessToken
      | Some tk \<Rightarrow>
          if postIds = [] then throwE NoTargetPosts
          else
            bindE loadProcessedIds (\<lambda>processedSet.
              processPosts w n tk fetchLimit rules processedSet postIds))"

section \<open>The 12-hour sweep (main script of src, lines 136--188)\<close>

record counters =
  n_total :: nat
  n_replied :: nat
  n_failed :: nat
  n_skipped :: nat

fun sweepComments ::
    "world \<Rightarrow> nat \<Rightarrow> string \<Rightarrow> string \<Rightarrow> rule list \<Rightarrow> string set \<Rightarrow> int \<Rightarrow> comment list
      \<Rightarrow> counters \<Rightarrow> counters comp" where
  "sweepComments w n postId token rules repliedSet sinceMs [] k = returnE k"
| "sweepComments w n postId token rules repliedSet sinceMs (c # rest) k =
    (if trim (c_id c) = [] then
       sweepComments w n postId token rules repliedSet sinceMs rest (k\<lparr>n_skipped := n_skipped k + 1\<rparr>)
     else if trim (c_id c) \<in> repliedSet then
       sweepComments w n postId token rules repliedSet sinceMs rest (k\<lparr>n_skipped := n_skipped k + 1\<rparr>)
     else if (case truthy (c_created_time c) of
                None \<Rightarrow> True
              | Some t \<Rightarrow> (case parseDate w t of
                             None \<Rightarrow> True
                           | Some created \<Rightarrow> created = 0 \<or> created < sinceMs)) then
       sweepComments w n postId token rules repliedSet sinceMs rest (k\<lparr>n_skipped := n_skipped k + 1\<rparr>)
     else
       (case findMatchingRule (orStr (c_message c) []) rules of
          None \<Rightarrow>
            sweepComments w n postId token rules repliedSet sinceMs rest
              (k\<lparr>n_total := n_total k + 1, n_skipped := n_skipped k + 1\<rparr>)
        | Some rl \<Rightarrow>
            bindE (catchE
                     (bindE (postReply w n (trim (c_id c))
                               (generateReply (r_template rl) (orStr (c_from_name c) []))
                               token) (\<lambda>_.
                      bindE (appendProcessed (trim (c_id c)) (c_created_time c)) (\<lambda>_.
                      bindE (logComment postId (trim (c_id c)) (orStr (c_from_name c) [])
                               (orStr (c_message c) []) (r_keyword rl)
                               (generateReply (r_template rl) (orStr (c_from_name c) []))
                               ''replied'' None) (\<lambda>_.
                      bindE (sleep 300) (\<lambda>_.
                      returnE (k\<lparr>n_total := n_total k + 1, n_replied := n_replied k + 1\<rparr>))))))
                     (\<lambda>err.
                        bindE (logComment postId (trim (c_id c)) (orStr (c_from_name c) [])
                                 (orStr (c_message c) []) (r_keyword rl)
                                 (generateReply (r_template rl) (orStr (c_from_name c) []))
                                 ''error'' (Some err)) (\<lambda>_.
                        returnE (k\<lparr>n_total := n_total k + 1, n_failed := n_failed k + 1\<rparr>))))
              (\<lambda>k'. sweepComments w n postId token rules repliedSet sinceMs rest k')))"

fun sweepPosts ::
    "world \<Rightarrow> nat \<Rightarrow> string \<Rightarrow> rule list \<Rightarrow> string set \<Rightarrow> int \<Rightarrow> string list \<Rightarrow> counters
      \<Rightarrow> counters comp" where
  "sweepPosts w n token rules repliedSet sinceMs [] k = returnE k"
| "sweepPosts w n token rules repliedSet sinceMs (postId # rest) k =
    bindE (fetchCommentsSince w n postId token sinceMs 200) (\<lambda>comments.
    bindE (sweepComments w n postId token rules repliedSet sinceMs comments k) (\<lambda>k'.
    sweepPosts w n token rules repliedSet sinceMs rest k'))"

text \<open>
  As in \<^verbatim>\<open>fetchAndRespond\<close>, \<open>rules\<close> and \<open>postIds\<close> stand for the sheets read before
  the loop.
\<close>

definition replyUnrepliedCommentsLast12h ::
    "world \<Rightarrow> nat \<Rightarrow> rule list \<Rightarrow> string list \<Rightarrow> counters comp" where
  "replyUnrepliedCommentsLast12h w n rules postIds =
    bindE (getProperty PAGE_ACCESS_TOKEN) (\<lambda>token.
      case truthy token of
        None \<Rightarrow> throwE NoAccessToken
      | Some tk \<Rightarrow>
          if postIds = [] then throwE NoTargetPosts
          else
            bindE loadRepliedCommentIdsSet (\<lambda>repliedSet.
            bindE nowMs (\<lambda>now.
              sweepPosts w n tk rules repliedSet (now - 12 * 60 * 60 * 1000) postIds
                \<lparr>n_total = 0, n_replied = 0, n_failed = 0, n_skipped = 0\<rparr>)))"

section \<open>Observations on computations\<close>

text \<open>The credential store: the properties and the log of \<^verbatim>\<open>setProperties\<close> calls.\<close>

definition store :: "state \<Rightarrow> (prop_key \<Rightarrow> string option) \<times> (prop_key \<times> string) list list" where
  "store s = (props s, writes s)"

text \<open>The state with the request log blanked: what a computation that only sends requests keeps.\<close>

definition besides_calls :: "state \<Rightarrow> state" where
  "besides_calls s = s\<lparr>calls := []\<rparr>"

definition preserves :: "(state \<Rightarrow> 'b) \<Rightarrow> 'a comp \<Rightarrow> bool" where
  "preserves f m = (\<forall>s. f (snd (m s)) = f s)"

definition total :: "'a comp \<Rightarrow> bool" where
  "total m = (\<forall>s. fst (m s) \<noteq> Timeout)"

definition maintains :: "(state \<Rightarrow> bool) \<Rightarrow> 'a comp \<Rightarrow> bool" where
  "maintains I m = (\<forall>s. I s \<longrightarrow> I (snd (m s)))"

text \<open>
  The credential-chain invariant: a stored page token comes with a stored page id, and
  every \<^verbatim>\<open>setProperties\<close> call that wrote the page token wrote the page id too.
\<close>

definition chain_ok :: "state \<Rightarrow> bool" where
  "chain_ok s =
    ((props s PAGE_ACCESS_TOKEN = None \<or> props s PAGE_ID \<noteq> None)
     \<and> list_all (\<lambda>kvs. PAGE_ACCESS_TOKEN \<notin> set (map fst kvs) \<or> PAGE_ID \<in> set (map fst kvs))
          (writes s))"


text \<open>The requests sent between two states of one run, oldest first.\<close>

definition sent :: "state \<Rightarrow> state \<Rightarrow> request list" where
  "sent s s' = map fst (drop (length (calls s)) (calls s'))"

definition sends :: "(request \<Rightarrow> bool) \<Rightarrow> 'a comp \<Rightarrow> bool" where
  "sends P m = (\<forall>s. \<exists>cs. calls (snd (m s)) = calls s @ cs \<and> list_all (\<lambda>c. P (fst c)) cs)"

text \<open>The requests of the wrapped operations, and those of the token endpoints.\<close>

fun wrapped :: "request \<Rightarrow> bool" where
  "wrapped (CommentsReq p l t) = True"
| "wrapped (CommentsSinceReq p x l t) = True"
| "wrapped (ReplyReq c m t) = True"
| "wrapped (FeedReq m t) = True"
| "wrapped (MeReq t) = True"
| "wrapped (PostsReq x k t) = True"
| "wrapped (ReelsReq p x k t) = True"
| "wrapped rq = False"

fun introspection :: "request \<Rightarrow> bool" where
  "introspection (DebugTokenReq i a) = True"
| "introspection (AccessTokenInfoReq t) = True"
| "introspection rq = False"

text \<open>The session-expired signature the wrappers test a failed response for.\<close>

definition expired :: "response \<Rightarrow> bool" where
  "expired res = (rcode res = 400 \<and> includesStr (rtext res) ''Session has expired'')"

section \<open>Target posts entered by hand (src/unnamed/part_001, lines 76 and 82--84)\<close>

text \<open>\<^verbatim>\<open>t.split(d)\<close> for a one-character separator.\<close>

fun splitOn :: "char \<Rightarrow> string \<Rightarrow> string list" where
  "splitOn d [] = [[]]"
| "splitOn d (c # cs) =
     (if c = d then [] # splitOn d cs
      else (case splitOn d cs of [] \<Rightarrow> [[c]] | x # xs \<Rightarrow> (c # x) # xs))"

text \<open>
  The value of the settings row of the post ids, split at commas, trimmed, the empty
  strings dropped. When the list is not empty \<^verbatim>\<open>getTargetPostIds\<close> returns it as it is.
\<close>

definition manualPostIds :: "string option \<Rightarrow> string list" where
  "manualPostIds v = filter (\<lambda>x. x \<noteq> []) (map trim (splitOn CHR '','' (orStr v [])))"

text \<open>The requests of the reels endpoint.\<close>

fun reelsRequest :: "request \<Rightarrow> bool" where
  "reelsRequest (ReelsReq p x k t) = True"
| "reelsRequest rq = False"

section \<open>Scenarios\<close>

text \<open>
  Concrete worlds and states for evaluating the functions. \<open>replay rs\<close> answers the
  \<open>n\<close>-th request of a run with the \<open>n\<close>-th entry of \<open>rs\<close>, whatever the request is;
  past the script the transport fails.
\<close>

definition replay :: "response option list \<Rightarrow> world" where
  "replay rs =
    \<lparr>upstream = (\<lambda>n rq. if n < length rs then rs ! n else None),
     toLocaleString = String_of,
     parseDate = parseInt\<rparr>"

definition ok :: "payload \<Rightarrow> response option" where
  "ok j = Some \<lparr>rcode = 200, rtext = [], rjson = j\<rparr>"

definition failed :: "int \<Rightarrow> string \<Rightarrow> response option" where
  "failed c t = Some \<lparr>rcode = c, rtext = t, rjson = OtherJson\<rparr>"

definition store_at :: "nat \<Rightarrow> (prop_key \<Rightarrow> string option) \<Rightarrow> state" where
  "store_at t m =
    \<lparr>props = m, writes = [], clock = t, calls = [], settings = Some [],
     processed = [], logs = [], posts = []\<rparr>"

definition debug_reply :: "int option \<Rightarrow> int option \<Rightarrow> bool option \<Rightarrow> response option" where
  "debug_reply e d v =
    ok (DebugJson (Some
      \<lparr>dbg_app_id = Some ''app'', dbg_type = Some ''USER'', dbg_application = None,
       dbg_is_valid = v, dbg_user_id = None, dbg_expires_at = e,
       dbg_data_access_expires_at = d, dbg_scopes = None\<rparr>))"

definition page0 :: page where
  "page0 = \<lparr>p_access_token = ''PT'', p_id = ''42'', p_name = ''Page''\<rparr>"

definition exchange_reply :: "int option \<Rightarrow> response option" where
  "exchange_reply x =
    ok (ExchangeJson \<lparr>exc_access_token = Some ''L'', exc_expires_in = x, exc_token_type = None\<rparr>)"

definition info_reply :: "string option \<Rightarrow> int option \<Rightarrow> response option" where
  "info_reply secret x =
    ok (InfoJson \<lparr>inf_app_id = Some ''A'', inf_app_secret = secret, inf_type = None,
                  inf_expires_in = x\<rparr>)"

definition with_credentials :: state where
  "with_credentials =
    store_at 1000 [USER_ACCESS_TOKEN \<mapsto> ''U'', APP_ID \<mapsto> ''A'', APP_SECRET \<mapsto> ''S'']"

definition valid_chain :: state where
  "valid_chain =
    store_at 1000 [USER_ACCESS_TOKEN \<mapsto> ''U'', TOKEN_EXPIRES_AT \<mapsto> ''5184001000'']"

definition always_valid :: world where
  "always_valid =
    replay [debug_reply (Some 0) None (Some True), debug_reply (Some 0) None (Some True)]"

definition session_expired :: "response option" where
  "session_expired = failed 400 ''Error validating access token: Session has expired''"

definition stale_chain :: state where
  "stale_chain = store_at 1000 [USER_ACCESS_TOKEN \<mapsto> ''U'', PAGE_ACCESS_TOKEN \<mapsto> ''PT0'']"



definition thanks_rule :: rule where
  "thanks_rule = \<lparr>r_enabled = True, r_keyword = ''hello'', r_template = ''Thanks {name}''\<rparr>"

definition greeting :: comment where
  "greeting = \<lparr>c_id = ''c1'', c_from_name = Some ''Ann'', c_message = Some ''Hello there'',
                c_created_time = Some ''5000''\<rparr>"

definition page_token_only :: state where
  "page_token_only = store_at 1000 [PAGE_ACCESS_TOKEN \<mapsto> ''PT'']"

definition same_post_twice :: world where
  "same_post_twice = replay
     [ok (CommentsJson (Some [greeting])), ok (IdJson (Some ''r1'') None),
      ok (CommentsJson (Some [greeting])), ok (IdJson (Some ''r2'') None)]"

definition page_reply :: "response option" where
  "page_reply = ok (IdJson (Some ''42'') (Some ''Page''))"

definition reels_expiring_once :: world where
  "reels_expiring_once = replay
     [page_reply, session_expired,
      ok (PagesJson (Some [page0])), debug_reply (Some 0) None (Some True),
      page_reply, failed 500 ''unsupported'']"

section \<open>Stored numbers read back\<close>

lemma digit_table: "list_all (\<lambda>d. digitVal (digitChar d) = Some d) [0..<10]"
  by (simp add: upt_rec digitChar_def digitVal_def)

declare digitsOf.simps [simp del]

lemma digitVal_digitChar: "d < 10 \<Longrightarrow> digitVal (digitChar d) = Some d"
  using digit_table by (simp add: list_all_iff)

lemma readDigits_snoc:
  "\<forall>c \<in> set xs. digitVal c \<noteq> None \<Longrightarrow> digitVal c = Some d \<Longrightarrow>
   readDigits acc (xs @ [c]) = 10 * readDigits acc xs + d"
  by (induction xs arbitrary: acc) auto

lemma digitsOf_digits: "\<forall>c \<in> set (digitsOf n). digitVal c \<noteq> None"
proof (induction n rule: digitsOf.induct)
  case (1 n)
  show ?case
  proof (cases "n < 10")
    case True
    then show ?thesis by (subst digitsOf.simps) (simp add: digitVal_digitChar)
  next
    case False
    with 1 show ?thesis by (subst digitsOf.simps) (simp add: digitVal_digitChar)
  qed
qed

lemma readDigits_digitsOf: "readDigits 0 (digitsOf n) = n"
proof (induction n rule: digitsOf.induct)
  case (1 n)
  show ?case
  proof (cases "n < 10")
    case True
    then show ?thesis by (subst digitsOf.simps) (simp add: digitVal_digitChar)
  next
    case False
    then have "readDigits 0 (digitsOf (n div 10)) = n div 10" using 1 by simp
    moreover have "digitVal (digitChar (n mod 10)) = Some (n mod 10)"
      by (simp add: digitVal_digitChar)
    ultimately show ?thesis using False
      by (subst digitsOf.simps) (simp add: readDigits_snoc digitsOf_digits)
  qed
qed

lemma digitsOf_nonempty: "digitsOf n \<noteq> []"
  by (subst digitsOf.simps) simp

lemma parseDigits_digitsOf: "parseDigits (digitsOf n) = Some n"
proof -
  obtain c cs where cs: "digitsOf n = c # cs"
    using digitsOf_nonempty by (cases "digitsOf n") auto
  then have "digitVal c \<noteq> None" using digitsOf_digits [of n] by simp
  then show ?thesis using cs readDigits_digitsOf [of n] by (auto simp: parseDigits_def)
qed

lemma digit_not_special:
  "digitVal c \<noteq> None \<Longrightarrow> \<not> isSpace c \<and> c \<noteq> CHR ''-'' \<and> c \<noteq> CHR ''+''"
  by (auto simp: digitVal_def upt_rec isSpace_def split: if_splits)

lemma parseInt_String_of: "parseInt (String_of e) = Some e"
proof (cases "e < 0")
  case True
  have "\<not> isSpace (CHR ''-'')" by (simp add: isSpace_def)
  then show ?thesis using True
    by (simp add: parseInt_def String_of_def parseDigits_digitsOf)
next
  case False
  obtain c cs where cs: "digitsOf (nat e) = c # cs"
    using digitsOf_nonempty by (cases "digitsOf (nat e)") auto
  then have "digitVal c \<noteq> None" using digitsOf_digits [of "nat e"] by simp
  then have sp: "\<not> isSpace c \<and> c \<noteq> CHR ''-'' \<and> c \<noteq> CHR ''+''" by (rule digit_not_special)
  have "parseDigits (c # cs) = Some (nat e)" using parseDigits_digitsOf [of "nat e"] cs by simp
  then show ?thesis using False sp cs
    by (simp add: parseInt_def String_of_def)
qed

lemma String_of_nonempty: "String_of e \<noteq> []"
  by (simp add: String_of_def digitsOf_nonempty)

section \<open>The stored validity check\<close>

lemma isTokenValid_stored:
  "isTokenValid w None s =
    (Ret (case truthy (props s TOKEN_EXPIRES_AT) of None \<Rightarrow> False
          | Some t \<Rightarrow> (case parseInt t of None \<Rightarrow> False
               | Some expires \<Rightarrow> expires - int (clock s) > 24 * 60 * 60 * 1000)), s)"
  by (simp add: isTokenValid_def catchE_def bindE_def getProperty_def returnE_def nowMs_def
      split: option.splits)

lemma TM_isTokenValid_stored:
  "TM_isTokenValid s =
    (Ret (case truthy (props s TOKEN_EXPIRES_AT) of None \<Rightarrow> False
          | Some t \<Rightarrow> (case parseInt t of None \<Rightarrow> False
               | Some expires \<Rightarrow> expires - int (clock s) > 24 * 60 * 60 * 1000)), s)"
  by (simp add: TM_isTokenValid_def bindE_def getProperty_def returnE_def nowMs_def
      split: option.splits)

text \<open>
  C5. The check that reads only the store (\<^verbatim>\<open>isTokenValid()\<close> of both files) answers
  true exactly when the stored expiry minus the current time is strictly more than 24
  hours (86400000 ms): a store holding the decimal string of \<open>e\<close> is valid iff
  \<open>e - now > 86400000\<close>, so exactly 24 hours remaining is not valid; an absent (or
  empty) stored expiry is never valid. The check sends no request and changes nothing.
\<close>

theorem validity_check_buffer:
  "(props s TOKEN_EXPIRES_AT = Some (String_of e) \<longrightarrow>
      isTokenValid w None s = (Ret (e - int (clock s) > 24 * 60 * 60 * 1000), s)
      \<and> TM_isTokenValid s = (Ret (e - int (clock s) > 24 * 60 * 60 * 1000), s))
   \<and> (props s TOKEN_EXPIRES_AT = Some (String_of e) \<and> e - int (clock s) = 24 * 60 * 60 * 1000 \<longrightarrow>
      isTokenValid w None s = (Ret False, s) \<and> TM_isTokenValid s = (Ret False, s))
   \<and> (truthy (props s TOKEN_EXPIRES_AT) = None \<longrightarrow>
      isTokenValid w None s = (Ret False, s) \<and> TM_isTokenValid s = (Ret False, s))"
  by (simp add: isTokenValid_stored TM_isTokenValid_stored parseInt_String_of String_of_nonempty)

lemma String_of_86401000: "String_of 86401000 = ''86401000''"
  by (simp add: String_of_def digitsOf.simps digitChar_def)

theorem validity_check_buffer_witness:
  "isTokenValid (replay []) None (store_at 1000 [TOKEN_EXPIRES_AT \<mapsto> ''86401000''])
     = (Ret False, store_at 1000 [TOKEN_EXPIRES_AT \<mapsto> ''86401000''])
   \<and> isTokenValid (replay []) None (store_at 999 [TOKEN_EXPIRES_AT \<mapsto> ''86401000''])
     = (Ret True, store_at 999 [TOKEN_EXPIRES_AT \<mapsto> ''86401000''])
   \<and> TM_isTokenValid (store_at 999 Map.empty) = (Ret False, store_at 999 Map.empty)"
  using validity_check_buffer [of "store_at 1000 [TOKEN_EXPIRES_AT \<mapsto> ''86401000'']" 86401000 "replay []"]
    validity_check_buffer [of "store_at 999 [TOKEN_EXPIRES_AT \<mapsto> ''86401000'']" 86401000 "replay []"]
    validity_check_buffer [of "store_at 999 Map.empty" 0 "replay []"]
  by (simp add: String_of_86401000 store_at_def)

section \<open>Introspection results\<close>

lemma getTokenInfoFromDebugToken_info:
  assumes "getTokenInfoFromDebugToken w inputToken acc s = (Ret info, s')"
  shows "\<exists>d. info = debugTokenInfo d (int (clock s div 1000))"
  using assms
  by (auto simp: getTokenInfoFromDebugToken_def catchE_def bindE_def fetch_def Let_def throwE_def
      returnE_def nowSec_def JSON_parse_def
      split: option.splits if_splits outcome.splits prod.splits payload.splits)

lemma getTokenInfoFromDebugToken_ok:
  assumes "upstream w (length (calls s))
             (DebugTokenReq inputToken (case truthy acc of Some a \<Rightarrow> a | None \<Rightarrow> inputToken))
           = Some res"
    and "200 \<le> rcode res" "rcode res < 300" "rjson res = DebugJson (Some d)"
  shows "fst (getTokenInfoFromDebugToken w inputToken acc s)
           = Ret (debugTokenInfo d (int (clock s div 1000)))"
  using assms
  by (simp add: getTokenInfoFromDebugToken_def catchE_def bindE_def fetch_def Let_def
      returnE_def nowSec_def JSON_parse_def debugData_def)

lemma getTokenInfoFromToken_result:
  assumes "getTokenInfoFromToken w token a b s = (Ret info, s')"
  shows "(\<exists>s1. getTokenInfoFromDebugToken w token
                 (Some (case (truthy a, truthy b) of
                          (Some x, Some y) \<Rightarrow> createAppToken x y | _ \<Rightarrow> token)) s
               = (Ret info, s1))
       \<or> (\<exists>err s1 res. getTokenInfoFromDebugToken w token
                 (Some (case (truthy a, truthy b) of
                          (Some x, Some y) \<Rightarrow> createAppToken x y | _ \<Rightarrow> token)) s
               = (Throw err, s1)
            \<and> upstream w (length (calls s1)) (AccessTokenInfoReq token) = Some res
            \<and> 200 \<le> rcode res \<and> rcode res < 300
            \<and> info = legacyTokenInfo (infoData (rjson res)))"
proof -
  let ?acc = "Some (case (truthy a, truthy b) of
                      (Some x, Some y) \<Rightarrow> createAppToken x y | _ \<Rightarrow> token)"
  obtain r0 s1 where d: "getTokenInfoFromDebugToken w token ?acc s = (r0, s1)"
    by (cases "getTokenInfoFromDebugToken w token ?acc s")
  show ?thesis
  proof (cases r0)
    case (Ret x)
    then show ?thesis
      using assms d by (simp add: getTokenInfoFromToken_def catchE_def)
  next
    case (Throw err)
    have "\<exists>res. upstream w (length (calls s1)) (AccessTokenInfoReq token) = Some res
        \<and> 200 \<le> rcode res \<and> rcode res < 300
        \<and> info = legacyTokenInfo (infoData (rjson res))"
      using assms d Throw
      by (cases "upstream w (length (calls s1)) (AccessTokenInfoReq token)")
        (auto simp: getTokenInfoFromToken_def catchE_def bindE_def fetch_def Let_def JSON_parse_def
          returnE_def throwE_def split: if_splits payload.splits)
    then show ?thesis
      using d Throw by blast
  next
    case Timeout
    then show ?thesis
      using assms d by (simp add: getTokenInfoFromToken_def catchE_def)
  qed
qed

text \<open>
  C8 (amended). Every result of \<^verbatim>\<open>getTokenInfoFromDebugToken\<close> has
  \<open>expiresIn = max 0 (expiresAt - now)\<close> when \<open>expiresAt > 0\<close> and \<open>expiresIn = 0\<close>
  otherwise, and \<open>isLongLived\<close> exactly when \<open>expiresAt = 0\<close> or
  \<open>expiresAt - now > 86400\<close> (\<open>now\<close> in seconds); a successful response whose
  \<^verbatim>\<open>expires_at\<close> is 0 yields a result with \<open>isLongLived\<close> true and \<open>expiresIn = 0\<close>.
  A result of \<^verbatim>\<open>getTokenInfoFromToken\<close> is either such a result or, when the
  \<^verbatim>\<open>debug_token\<close> request failed and the legacy endpoint answered, the legacy object:
  \<open>expiresAt = 0\<close>, \<open>expiresIn\<close> the \<^verbatim>\<open>expires_in\<close> of the answer (0 when absent) and
  \<open>isLongLived\<close> exactly when that number exceeds 86400.
\<close>

theorem introspection_numeric_semantics:
  "(getTokenInfoFromDebugToken w inputToken acc s = (Ret info, s') \<longrightarrow>
      expiresIn info =
        (case expiresAt info of
           Some e \<Rightarrow> if e > 0 then max 0 (e - int (clock s div 1000)) else 0
         | None \<Rightarrow> 0)
      \<and> isLongLived info =
        (expiresAt info = Some 0
         \<or> (\<exists>e. expiresAt info = Some e \<and> e - int (clock s div 1000) > 86400)))
   \<and> (upstream w (length (calls s))
         (DebugTokenReq inputToken (case truthy acc of Some a \<Rightarrow> a | None \<Rightarrow> inputToken))
         = Some res
       \<and> 200 \<le> rcode res \<and> rcode res < 300 \<and> rjson res = DebugJson (Some d)
       \<and> dbg_expires_at d = Some 0 \<longrightarrow>
      (\<exists>info0. fst (getTokenInfoFromDebugToken w inputToken acc s) = Ret info0
         \<and> expiresAt info0 = Some 0 \<and> isLongLived info0 \<and> expiresIn info0 = 0))
   \<and> (getTokenInfoFromToken w inputToken appId' appSecret s = (Ret info1, s1) \<longrightarrow>
      (expiresIn info1 =
         (case expiresAt info1 of
            Some e \<Rightarrow> if e > 0 then max 0 (e - int (clock s div 1000)) else 0
          | None \<Rightarrow> 0)
       \<and> isLongLived info1 =
         (expiresAt info1 = Some 0
          \<or> (\<exists>e. expiresAt info1 = Some e \<and> e - int (clock s div 1000) > 86400)))
      \<or> (\<exists>err s2 res1.
            getTokenInfoFromDebugToken w inputToken
              (Some (case (truthy appId', truthy appSecret) of
                       (Some x, Some y) \<Rightarrow> createAppToken x y | _ \<Rightarrow> inputToken)) s
              = (Throw err, s2)
            \<and> upstream w (length (calls s2)) (AccessTokenInfoReq inputToken) = Some res1
            \<and> 200 \<le> rcode res1 \<and> rcode res1 < 300
            \<and> expiresAt info1 = Some 0
            \<and> expiresIn info1 = orNum (inf_expires_in (infoData (rjson res1))) 0
            \<and> isLongLived info1 = (orNum (inf_expires_in (infoData (rjson res1))) 0 > 86400)))"
  (is "?A \<and> ?B \<and> ?C")
proof -
  have sem: "expiresIn i =
        (case expiresAt i of
           Some e \<Rightarrow> if e > 0 then max 0 (e - int (clock s div 1000)) else 0
         | None \<Rightarrow> 0)
      \<and> isLongLived i =
        (expiresAt i = Some 0
         \<or> (\<exists>e. expiresAt i = Some e \<and> e - int (clock s div 1000) > 86400))"
    if "getTokenInfoFromDebugToken w tk a s = (Ret i, st)" for tk a i st
  proof -
    note run = that
    obtain d0 where i: "i = debugTokenInfo d0 (int (clock s div 1000))"
      using getTokenInfoFromDebugToken_info [OF run] by blast
    show ?thesis
      by (cases "dbg_expires_at d0") (auto simp: i debugTokenInfo_def)
  qed
  have A: ?A using sem by blast
  have B: ?B
  proof
    assume a: "upstream w (length (calls s))
         (DebugTokenReq inputToken (case truthy acc of Some a \<Rightarrow> a | None \<Rightarrow> inputToken))
         = Some res
       \<and> 200 \<le> rcode res \<and> rcode res < 300 \<and> rjson res = DebugJson (Some d)
       \<and> dbg_expires_at d = Some 0"
    then have "fst (getTokenInfoFromDebugToken w inputToken acc s)
           = Ret (debugTokenInfo d (int (clock s div 1000)))"
      using getTokenInfoFromDebugToken_ok by blast
    then show "\<exists>info0. fst (getTokenInfoFromDebugToken w inputToken acc s) = Ret info0
         \<and> expiresAt info0 = Some 0 \<and> isLongLived info0 \<and> expiresIn info0 = 0"
      using a by (simp add: debugTokenInfo_def)
  qed
  have C: ?C
  proof
    assume r: "getTokenInfoFromToken w inputToken appId' appSecret s = (Ret info1, s1)"
    from getTokenInfoFromToken_result [OF r]
    show "(expiresIn info1 =
         (case expiresAt info1 of
            Some e \<Rightarrow> if e > 0 then max 0 (e - int (clock s div 1000)) else 0
          | None \<Rightarrow> 0)
       \<and> isLongLived info1 =
         (expiresAt info1 = Some 0
          \<or> (\<exists>e. expiresAt info1 = Some e \<and> e - int (clock s div 1000) > 86400)))
      \<or> (\<exists>err s2 res1.
            getTokenInfoFromDebugToken w inputToken
              (Some (case (truthy appId', truthy appSecret) of
                       (Some x, Some y) \<Rightarrow> createAppToken x y | _ \<Rightarrow> inputToken)) s
              = (Throw err, s2)
            \<and> upstream w (length (calls s2)) (AccessTokenInfoReq inputToken) = Some res1
            \<and> 200 \<le> rcode res1 \<and> rcode res1 < 300
            \<and> expiresAt info1 = Some 0
            \<and> expiresIn info1 = orNum (inf_expires_in (infoData (rjson res1))) 0
            \<and> isLongLived info1 = (orNum (inf_expires_in (infoData (rjson res1))) 0 > 86400))"
    proof (elim disjE exE conjE)
      fix st
      assume "getTokenInfoFromDebugToken w inputToken
                 (Some (case (truthy appId', truthy appSecret) of
                          (Some x, Some y) \<Rightarrow> createAppToken x y | _ \<Rightarrow> inputToken)) s
               = (Ret info1, st)"
      from sem [OF this] show ?thesis by (rule disjI1)
    next
      fix err st res1
      assume "getTokenInfoFromDebugToken w inputToken
                 (Some (case (truthy appId', truthy appSecret) of
                          (Some x, Some y) \<Rightarrow> createAppToken x y | _ \<Rightarrow> inputToken)) s
               = (Throw err, st)"
        and "upstream w (length (calls st)) (AccessTokenInfoReq inputToken) = Some res1"
        and "200 \<le> rcode res1" "rcode res1 < 300"
        and "info1 = legacyTokenInfo (infoData (rjson res1))"
      then show ?thesis
        by (intro disjI2 exI [of _ err] exI [of _ st] exI [of _ res1])
          (simp add: legacyTokenInfo_def del: orNum.simps)
    qed
  qed
  show ?thesis by (rule conjI [OF A conjI [OF B C]])
qed

lemma demo_debug_run:
  "getTokenInfoFromDebugToken (replay [debug_reply e d v]) tok None (store_at t m)
    = (Ret (debugTokenInfo
         \<lparr>dbg_app_id = Some ''app'', dbg_type = Some ''USER'', dbg_application = None,
          dbg_is_valid = v, dbg_user_id = None, dbg_expires_at = e,
          dbg_data_access_expires_at = d, dbg_scopes = None\<rparr> (int (t div 1000))),
       (store_at t m)\<lparr>calls := [(DebugTokenReq tok tok, debug_reply e d v)]\<rparr>)"
  by (simp add: getTokenInfoFromDebugToken_def catchE_def bindE_def fetch_def Let_def
      returnE_def nowSec_def JSON_parse_def debugData_def replay_def debug_reply_def ok_def
      store_at_def)

lemma demo_legacy_run:
  "fst (getTokenInfoFromToken (replay [failed 500 ''down'', info_reply None x]) tok None None
          (store_at t m))
    = Ret (legacyTokenInfo \<lparr>inf_app_id = Some ''A'', inf_app_secret = None, inf_type = None,
                            inf_expires_in = x\<rparr>)"
  by (simp add: getTokenInfoFromToken_def getTokenInfoFromDebugToken_def catchE_def bindE_def
      fetch_def Let_def returnE_def throwE_def JSON_parse_def infoData_def replay_def
      failed_def info_reply_def ok_def store_at_def)

theorem introspection_numeric_semantics_witness:
  "(\<exists>info. fst (getTokenInfoFromDebugToken (replay [debug_reply (Some 0) None (Some True)])
        ''tok'' None (store_at 5000 Map.empty)) = Ret info
      \<and> expiresAt info = Some 0 \<and> isLongLived info \<and> expiresIn info = 0)
   \<and> (\<exists>info s'. getTokenInfoFromDebugToken (replay [debug_reply (Some 100000) None (Some True)])
        ''tok'' None (store_at 5000 Map.empty) = (Ret info, s')
      \<and> expiresIn info = 99995 \<and> isLongLived info)
   \<and> (\<exists>info s'. getTokenInfoFromToken (replay [failed 500 ''down'', info_reply None (Some 100)])
        ''tok'' None None (store_at 5000 Map.empty) = (Ret info, s')
      \<and> expiresAt info = Some 0 \<and> expiresIn info \<noteq> 0 \<and> \<not> isLongLived info
      \<and> (\<exists>err s2. getTokenInfoFromDebugToken
             (replay [failed 500 ''down'', info_reply None (Some 100)]) ''tok'' (Some ''tok'')
             (store_at 5000 Map.empty) = (Throw err, s2)))"
proof (intro conjI)
  let ?w = "replay [debug_reply (Some 0) None (Some True)]"
  let ?s = "store_at 5000 Map.empty"
  let ?d = "\<lparr>dbg_app_id = Some ''app'', dbg_type = Some ''USER'', dbg_application = None,
          dbg_is_valid = Some True, dbg_user_id = None, dbg_expires_at = Some 0,
          dbg_data_access_expires_at = None, dbg_scopes = None\<rparr>"
  have "upstream ?w (length (calls ?s))
         (DebugTokenReq ''tok'' (case truthy None of Some a \<Rightarrow> a | None \<Rightarrow> ''tok''))
         = Some \<lparr>rcode = 200, rtext = [], rjson = DebugJson (Some ?d)\<rparr>"
    by (simp add: replay_def debug_reply_def ok_def store_at_def)
  then show "\<exists>info. fst (getTokenInfoFromDebugToken ?w ''tok'' None ?s) = Ret info
      \<and> expiresAt info = Some 0 \<and> isLongLived info \<and> expiresIn info = 0"
    using introspection_numeric_semantics
      [where w = ?w and inputToken = "''tok''" and acc = None and s = ?s
        and res = "\<lparr>rcode = 200, rtext = [], rjson = DebugJson (Some ?d)\<rparr>" and d = ?d,
        THEN conjunct2, THEN conjunct1]
    by simp
next
  let ?w = "replay [debug_reply (Some 100000) None (Some True)]"
  let ?s = "store_at 5000 Map.empty"
  obtain info s' where r: "getTokenInfoFromDebugToken ?w ''tok'' None ?s = (Ret info, s')"
    and e: "expiresAt info = Some 100000"
    by (simp add: demo_debug_run debugTokenInfo_def)
  from introspection_numeric_semantics
    [where w = ?w and inputToken = "''tok''" and acc = None and s = ?s and info = info
      and s' = s', THEN conjunct1] r e
  have "expiresIn info = 99995 \<and> isLongLived info" by (simp add: store_at_def)
  with r show "\<exists>info s'. getTokenInfoFromDebugToken ?w ''tok'' None ?s = (Ret info, s')
      \<and> expiresIn info = 99995 \<and> isLongLived info" by blast
next
  let ?w = "replay [failed 500 ''down'', info_reply None (Some 100)]"
  let ?s = "store_at 5000 Map.empty"
  let ?i = "legacyTokenInfo \<lparr>inf_app_id = Some ''A'', inf_app_secret = None, inf_type = None,
                             inf_expires_in = Some 100\<rparr>"
  obtain s' where r: "getTokenInfoFromToken ?w ''tok'' None None ?s = (Ret ?i, s')"
    using demo_legacy_run [of "Some 100" "''tok''" 5000 Map.empty]
    by (cases "getTokenInfoFromToken ?w ''tok'' None None ?s") simp
  have l: "expiresAt ?i = Some 0" "expiresIn ?i = 100" "\<not> isLongLived ?i"
    by (simp_all add: legacyTokenInfo_def)
  from introspection_numeric_semantics
    [where w = ?w and inputToken = "''tok''" and appId' = None and appSecret = None
      and s = ?s and ?info1.0 = ?i and ?s1.0 = s', THEN conjunct2, THEN conjunct2] r l
  have "\<exists>err s2. getTokenInfoFromDebugToken ?w ''tok'' (Some ''tok'') ?s = (Throw err, s2)"
    by auto
  with r l show "\<exists>info s'. getTokenInfoFromToken ?w ''tok'' None None ?s = (Ret info, s')
      \<and> expiresAt info = Some 0 \<and> expiresIn info \<noteq> 0 \<and> \<not> isLongLived info
      \<and> (\<exists>err s2. getTokenInfoFromDebugToken ?w ''tok'' (Some ''tok'') ?s = (Throw err, s2))"
    by (intro exI [of _ ?i] exI [of _ s']) simp
qed

theorem legacy_introspection_counterexample:
  "\<exists>info. fst (getTokenInfoFromToken (replay [failed 500 ''down'', info_reply None (Some 100)])
        ''tok'' None None (store_at 5000 Map.empty)) = Ret info
      \<and> expiresAt info = Some 0 \<and> expiresIn info = 100 \<and> \<not> isLongLived info"
  by (simp add: demo_legacy_run legacyTokenInfo_def)

section \<open>Frame lemmas\<close>

named_theorems frame

lemma preserves_returnE [frame]: "preserves f (returnE x)"
  by (simp add: preserves_def returnE_def)

lemma preserves_throwE [frame]: "preserves f (throwE e)"
  by (simp add: preserves_def throwE_def)

lemma preserves_bindE [frame]:
  "preserves f m \<Longrightarrow> (\<And>x. preserves f (g x)) \<Longrightarrow> preserves f (bindE m g)"
  by (auto simp: preserves_def bindE_def split: prod.splits outcome.splits) (metis snd_conv)+

lemma preserves_catchE [frame]:
  "preserves f m \<Longrightarrow> (\<And>e. preserves f (h e)) \<Longrightarrow> preserves f (catchE m h)"
  by (auto simp: preserves_def catchE_def split: prod.splits outcome.splits) (metis snd_conv)+

lemma preserves_fetch [frame]: "preserves besides_calls (fetch w rq)"
  by (simp add: preserves_def fetch_def Let_def besides_calls_def split: option.splits)

lemma preserves_JSON_parse [frame]: "preserves f (JSON_parse r)"
  by (simp add: JSON_parse_def preserves_returnE preserves_throwE split: payload.splits)

lemma preserves_getProperty [frame]: "preserves f (getProperty k)"
  by (simp add: preserves_def getProperty_def)

lemma preserves_nowMs [frame]: "preserves f nowMs"
  by (simp add: preserves_def nowMs_def)

lemma preserves_nowSec [frame]: "preserves f nowSec"
  by (simp add: preserves_def nowSec_def)

lemma preserves_getTokenInfoFromDebugToken [frame]:
  "preserves besides_calls (getTokenInfoFromDebugToken w i a)"
  unfolding getTokenInfoFromDebugToken_def
  by (auto intro!: frame split: option.splits)

lemma preserves_getTokenInfoFromToken [frame]:
  "preserves besides_calls (getTokenInfoFromToken w t a b)"
  unfolding getTokenInfoFromToken_def
  by (auto intro!: frame split: option.splits)

lemma preserves_getPageTokens [frame]: "preserves besides_calls (getPageTokens w t)"
  unfolding getPageTokens_def
  by (auto intro!: frame split: option.splits)

lemma preserves_exchangeWC [frame]:
  "preserves besides_calls (exchangeToLongLivedTokenWithCredentials w t a b)"
  unfolding exchangeToLongLivedTokenWithCredentials_def
  by (auto intro!: frame split: option.splits)

lemma preserves_isTokenValid [frame]: "preserves besides_calls (isTokenValid w t)"
  unfolding isTokenValid_def
  by (auto intro!: frame split: option.splits)

lemma preservesD: "preserves f m \<Longrightarrow> m s = (r, s') \<Longrightarrow> f s' = f s"
  by (auto simp: preserves_def dest: spec [of _ s])

lemma quietD:
  assumes "preserves besides_calls m" "m s = (r, s')"
  shows "props s' = props s" "writes s' = writes s" "clock s' = clock s"
    "settings s' = settings s" "processed s' = processed s" "logs s' = logs s" "posts s' = posts s"
proof -
  have "besides_calls s' = besides_calls s" using assms by (rule preservesD)
  then have "s'\<lparr>calls := []\<rparr> = s\<lparr>calls := []\<rparr>" by (simp add: besides_calls_def)
  then have e: "f (s'\<lparr>calls := []\<rparr>) = f (s\<lparr>calls := []\<rparr>)" for f :: "state \<Rightarrow> 'x" by simp
  show "props s' = props s" using e [of props] by simp
  show "writes s' = writes s" using e [of writes] by simp
  show "clock s' = clock s" using e [of clock] by simp
  show "settings s' = settings s" using e [of settings] by simp
  show "processed s' = processed s" using e [of processed] by simp
  show "logs s' = logs s" using e [of logs] by simp
  show "posts s' = posts s" using e [of posts] by simp
qed

named_theorems totality

lemma total_returnE [totality]: "total (returnE x)"
  by (simp add: total_def returnE_def)

lemma total_throwE [totality]: "total (throwE e)"
  by (simp add: total_def throwE_def)

lemma total_bindE [totality]:
  "total m \<Longrightarrow> (\<And>x. total (g x)) \<Longrightarrow> total (bindE m g)"
  by (auto simp: total_def bindE_def split: prod.splits outcome.splits) (metis fst_conv)+

lemma total_catchE [totality]:
  "total m \<Longrightarrow> (\<And>e. total (h e)) \<Longrightarrow> total (catchE m h)"
  by (auto simp: total_def catchE_def split: prod.splits outcome.splits) (metis fst_conv)+

lemma total_fetch [totality]: "total (fetch w rq)"
  by (simp add: total_def fetch_def Let_def split: option.splits)

lemma total_JSON_parse [totality]: "total (JSON_parse r)"
  by (simp add: JSON_parse_def total_returnE total_throwE split: payload.splits)

lemma total_getProperty [totality]: "total (getProperty k)"
  by (simp add: total_def getProperty_def)

lemma total_setProperties [totality]: "total (setProperties kvs)"
  by (simp add: total_def setProperties_def)

lemma total_nowMs [totality]: "total nowMs"
  by (simp add: total_def nowMs_def)

lemma total_nowSec [totality]: "total nowSec"
  by (simp add: total_def nowSec_def)

lemma total_getTokenInfoFromDebugToken [totality]: "total (getTokenInfoFromDebugToken w i a)"
  unfolding getTokenInfoFromDebugToken_def
  by (auto intro!: totality split: option.splits)


lemma total_getPageTokens [totality]: "total (getPageTokens w t)"
  unfolding getPageTokens_def
  by (auto intro!: totality split: option.splits)

lemma total_exchangeWC [totality]: "total (exchangeToLongLivedTokenWithCredentials w t a b)"
  unfolding exchangeToLongLivedTokenWithCredentials_def
  by (auto intro!: totality split: option.splits)



lemma refreshToken_no_creds_no_pages:
  assumes "truthy (props s USER_ACCESS_TOKEN) = Some ut"
    and "truthy (props s APP_ID) = None \<or> truthy (props s APP_SECRET) = None"
    and "getPageTokens w ut s = (Ret [], s1)"
  shows "refreshToken w s = (Ret False, s1)"
  using assms
  by (auto simp: refreshToken_def catchE_def bindE_def getProperty_def throwE_def returnE_def
      split: option.splits)

lemma refreshToken_creds_no_pages:
  assumes "truthy (props s USER_ACCESS_TOKEN) = Some ut"
    and "truthy (props s APP_ID) = Some aid" "truthy (props s APP_SECRET) = Some sec"
    and "exchangeToLongLivedTokenWithCredentials w ut aid sec s = (Ret ti, s1)"
    and "getPageTokens w (accessToken ti) s1 = (Ret [], s2)"
  shows "refreshToken w s = (Ret False, s2)"
  using assms
  by (auto simp: refreshToken_def catchE_def bindE_def getProperty_def throwE_def returnE_def
      split: option.splits)

lemma total_upsertSetting [totality]: "total (upsertSetting k v n)"
  by (simp add: total_def upsertSetting_def split: option.splits)

lemma total_upsertSettings [totality]: "total (upsertSettings rows)"
  by (induction rows) (auto intro!: totality)


section \<open>Refresh without managed pages\<close>

text \<open>
  C3. When the page lookup of \<^verbatim>\<open>refreshToken\<close> returns an empty list, the refresh
  returns false and has written nothing: the properties and the log of
  \<^verbatim>\<open>setProperties\<close> calls are those of the start. Both branches: without app credentials
  (lookup with the stored user token) and with them (lookup with the exchanged token).
\<close>

theorem refresh_without_pages:
  "(truthy (props s USER_ACCESS_TOKEN) = Some ut
      \<and> (truthy (props s APP_ID) = None \<or> truthy (props s APP_SECRET) = None)
      \<and> getPageTokens w ut s = (Ret [], s1) \<longrightarrow>
      refreshToken w s = (Ret False, s1) \<and> props s1 = props s \<and> writes s1 = writes s)
   \<and> (truthy (props s USER_ACCESS_TOKEN) = Some ut
      \<and> truthy (props s APP_ID) = Some aid \<and> truthy (props s APP_SECRET) = Some sec
      \<and> exchangeToLongLivedTokenWithCredentials w ut aid sec s = (Ret ti, s1)
      \<and> getPageTokens w (accessToken ti) s1 = (Ret [], s2) \<longrightarrow>
      refreshToken w s = (Ret False, s2) \<and> props s2 = props s \<and> writes s2 = writes s)"
proof (intro conjI impI)
  assume a: "truthy (props s USER_ACCESS_TOKEN) = Some ut
      \<and> (truthy (props s APP_ID) = None \<or> truthy (props s APP_SECRET) = None)
      \<and> getPageTokens w ut s = (Ret [], s1)"
  then show "refreshToken w s = (Ret False, s1)"
    using refreshToken_no_creds_no_pages by blast
  from a have g: "getPageTokens w ut s = (Ret [], s1)" by simp
  show "props s1 = props s" "writes s1 = writes s"
    using quietD [OF preserves_getPageTokens g] by simp_all
next
  assume a: "truthy (props s USER_ACCESS_TOKEN) = Some ut
      \<and> truthy (props s APP_ID) = Some aid \<and> truthy (props s APP_SECRET) = Some sec
      \<and> exchangeToLongLivedTokenWithCredentials w ut aid sec s = (Ret ti, s1)
      \<and> getPageTokens w (accessToken ti) s1 = (Ret [], s2)"
  then show "refreshToken w s = (Ret False, s2)"
    using refreshToken_creds_no_pages by blast
  from a have x: "exchangeToLongLivedTokenWithCredentials w ut aid sec s = (Ret ti, s1)"
    and g: "getPageTokens w (accessToken ti) s1 = (Ret [], s2)" by simp_all
  show "props s2 = props s" "writes s2 = writes s"
    using quietD [OF preserves_exchangeWC x] quietD [OF preserves_getPageTokens g] by simp_all
qed

theorem refresh_without_pages_witness:
  "refreshToken (replay [ok (PagesJson (Some []))]) (store_at 1000 [USER_ACCESS_TOKEN \<mapsto> ''U''])
     = (Ret False, (store_at 1000 [USER_ACCESS_TOKEN \<mapsto> ''U''])
          \<lparr>calls := [(MeAccountsReq ''U'', ok (PagesJson (Some [])))]\<rparr>)
   \<and> fst (refreshToken
        (replay [ok (ExchangeJson \<lparr>exc_access_token = Some ''L'', exc_expires_in = Some 5184000,
                                   exc_token_type = None\<rparr>),
                 ok (PagesJson (Some []))])
        (store_at 1000 [USER_ACCESS_TOKEN \<mapsto> ''U'', APP_ID \<mapsto> ''A'', APP_SECRET \<mapsto> ''S'']))
     = Ret False"
proof (intro conjI)
  let ?w = "replay [ok (PagesJson (Some []))]"
  let ?s = "store_at 1000 [USER_ACCESS_TOKEN \<mapsto> ''U'']"
  let ?s1 = "?s\<lparr>calls := [(MeAccountsReq ''U'', ok (PagesJson (Some [])))]\<rparr>"
  have g: "getPageTokens ?w ''U'' ?s = (Ret [], ?s1)"
    by (simp add: getPageTokens_def bindE_def fetch_def Let_def returnE_def JSON_parse_def
        pagesData_def replay_def ok_def store_at_def)
  have t: "truthy (props ?s USER_ACCESS_TOKEN) = Some ''U''" "truthy (props ?s APP_ID) = None"
    by (simp_all add: store_at_def)
  show "refreshToken ?w ?s = (Ret False, ?s1)"
    using refresh_without_pages [of ?s "''U''" ?w ?s1] g t by simp
next
  let ?x = "\<lparr>exc_access_token = Some ''L'', exc_expires_in = Some 5184000, exc_token_type = None\<rparr>"
  let ?w = "replay [ok (ExchangeJson ?x), ok (PagesJson (Some []))]"
  let ?s = "store_at 1000 [USER_ACCESS_TOKEN \<mapsto> ''U'', APP_ID \<mapsto> ''A'', APP_SECRET \<mapsto> ''S'']"
  let ?ti = "\<lparr>accessToken = ''L'', tokenExpiresIn = 5184000, tokenType = ''bearer''\<rparr>"
  let ?s1 = "?s\<lparr>calls := [(ExchangeTokenReq ''A'' ''S'' ''U'', ok (ExchangeJson ?x))]\<rparr>"
  let ?s2 = "?s\<lparr>calls := [(ExchangeTokenReq ''A'' ''S'' ''U'', ok (ExchangeJson ?x)),
                           (MeAccountsReq ''L'', ok (PagesJson (Some [])))]\<rparr>"
  have x: "exchangeToLongLivedTokenWithCredentials ?w ''U'' ''A'' ''S'' ?s = (Ret ?ti, ?s1)"
    by (simp add: exchangeToLongLivedTokenWithCredentials_def bindE_def fetch_def Let_def
        returnE_def JSON_parse_def exchangeData_def replay_def ok_def store_at_def)
  have g: "getPageTokens ?w (accessToken ?ti) ?s1 = (Ret [], ?s2)"
    by (simp add: getPageTokens_def bindE_def fetch_def Let_def returnE_def JSON_parse_def
        pagesData_def replay_def ok_def store_at_def)
  have t: "truthy (props ?s USER_ACCESS_TOKEN) = Some ''U''" "truthy (props ?s APP_ID) = Some ''A''"
    "truthy (props ?s APP_SECRET) = Some ''S''"
    by (simp_all add: store_at_def)
  show "fst (refreshToken ?w ?s) = Ret False"
    using refresh_without_pages [of ?s "''U''" ?w ?s1 "''A''" "''S''" ?ti ?s2] x g t by simp
qed

section \<open>Evaluating the token flows\<close>

lemmas comp_defs = bindE_def catchE_def returnE_def throwE_def getProperty_def
  setProperties_def nowMs_def nowSec_def

lemma upsertSettings_eq:
  "upsertSettings rows s =
    (case settings s of
       None \<Rightarrow> (if rows = [] then Ret () else Throw TypeError, s)
     | Some sh \<Rightarrow> (Ret (), s\<lparr>settings := Some (foldl (\<lambda>a (k, v, n). upsertRows k v n a) sh rows)\<rparr>))"
proof (induction rows arbitrary: s)
  case Nil
  then show ?case by (simp add: returnE_def split: option.splits)
next
  case (Cons r rows)
  obtain k v n where r: "r = (k, v, n)" by (cases r) auto
  show ?case
    by (simp add: r bindE_def upsertSetting_def Cons split: option.splits)
qed

lemma writeSettingsSheet_eq:
  "writeSettingsSheet rows s =
    (Ret (), s\<lparr>settings :=
       map_option (\<lambda>sh. foldl (\<lambda>a (k, v, n). upsertRows k v n a) sh rows) (settings s)\<rparr>)"
  by (simp add: writeSettingsSheet_def catchE_def upsertSettings_eq returnE_def split: option.splits)

lemma preserves_TM_getTokenInfoFromToken [frame]:
  "preserves besides_calls (TM_getTokenInfoFromToken w t)"
  unfolding TM_getTokenInfoFromToken_def
  by (auto intro!: frame split: option.splits)

lemma preserves_getAppInfoFromToken [frame]:
  "preserves besides_calls (getAppInfoFromToken w t)"
  unfolding getAppInfoFromToken_def
  by (auto intro!: frame split: option.splits)

lemma preserves_shortTokenAsIs [frame]: "preserves besides_calls (shortTokenAsIs w t)"
  unfolding shortTokenAsIs_def
  by (auto intro!: frame split: option.splits)

lemma preserves_exchangeToLongLivedToken [frame]:
  "preserves besides_calls (exchangeToLongLivedToken w t)"
  unfolding exchangeToLongLivedToken_def
  by (auto intro!: frame split: option.splits)

lemma total_TM_getTokenInfoFromToken [totality]: "total (TM_getTokenInfoFromToken w t)"
  unfolding TM_getTokenInfoFromToken_def
  by (auto intro!: totality split: option.splits)

lemma total_getAppInfoFromToken [totality]: "total (getAppInfoFromToken w t)"
  unfolding getAppInfoFromToken_def
  by (auto intro!: totality split: option.splits)

lemma total_saveAppSettings [totality]: "total (saveAppSettings a b)"
  by (simp add: saveAppSettings_def total_setProperties)










lemmas eval_defs = comp_defs fetch_def Let_def JSON_parse_def replay_def ok_def failed_def
  store_at_def debug_reply_def exchange_reply_def info_reply_def page0_def with_credentials_def
  debugData_def infoData_def exchangeData_def pagesData_def writeSettingsSheet_eq

lemma String_of_small:
  "String_of 1900000000000 = ''1900000000000''"
  "String_of 1800000000000 = ''1800000000000''"
  "String_of 5184001000 = ''5184001000''"
  "String_of 1801000 = ''1801000''"
  by (simp_all add: String_of_def digitsOf.simps digitChar_def)

section \<open>Expiry reconciliation\<close>


lemmas token_defs = exchangeToLongLivedTokenWithCredentials_def getPageTokens_def
  getTokenInfoFromToken_def getTokenInfoFromDebugToken_def debugTokenInfo_def legacyTokenInfo_def
  infoExpiresAtMs_def createAppToken_def recordAppInfo_def saveAppSettings_def
  exchangeToLongLivedToken_def shortTokenAsIs_def getAppInfoFromToken_def
  TM_getTokenInfoFromToken_def



section \<open>The credential-chain invariant\<close>

named_theorems chain

lemma maintains_returnE [chain]: "maintains I (returnE x)"
  by (simp add: maintains_def returnE_def)

lemma maintains_throwE [chain]: "maintains I (throwE e)"
  by (simp add: maintains_def throwE_def)

lemma maintains_bindE [chain]:
  "maintains I m \<Longrightarrow> (\<And>x. maintains I (g x)) \<Longrightarrow> maintains I (bindE m g)"
  by (auto simp: maintains_def bindE_def split: prod.splits outcome.splits)

lemma maintains_catchE [chain]:
  "maintains I m \<Longrightarrow> (\<And>e. maintains I (h e)) \<Longrightarrow> maintains I (catchE m h)"
  by (auto simp: maintains_def catchE_def split: prod.splits outcome.splits)

lemma maintains_timeout [chain]: "maintains I (\<lambda>s. (Timeout, s))"
  by (simp add: maintains_def)

lemma chain_ok_cong: "props s' = props s \<Longrightarrow> writes s' = writes s \<Longrightarrow> chain_ok s' = chain_ok s"
  by (simp add: chain_ok_def)

lemma maintains_quiet: "preserves besides_calls m \<Longrightarrow> maintains chain_ok m"
  unfolding maintains_def
proof (intro allI impI)
  fix s assume p: "preserves besides_calls m" and c: "chain_ok s"
  obtain r s' where m: "m s = (r, s')" by (cases "m s")
  from quietD [OF p m] have "chain_ok s' = chain_ok s" by (intro chain_ok_cong) simp_all
  with c m show "chain_ok (snd (m s))" by simp
qed

lemma maintains_store: "preserves store m \<Longrightarrow> maintains chain_ok m"
  unfolding maintains_def
proof (intro allI impI)
  fix s assume p: "preserves store m" and c: "chain_ok s"
  obtain r s' where m: "m s = (r, s')" by (cases "m s")
  from preservesD [OF p m] have "chain_ok s' = chain_ok s"
    by (intro chain_ok_cong) (simp_all add: store_def)
  with c m show "chain_ok (snd (m s))" by simp
qed

lemma foldl_upd_None:
  "foldl (\<lambda>m (k, v). m(k \<mapsto> v)) m kvs k = None \<longleftrightarrow> m k = None \<and> k \<notin> set (map fst kvs)"
  by (induction kvs arbitrary: m) (auto split: if_splits)

lemma maintains_setProperties [chain]:
  "PAGE_ACCESS_TOKEN \<notin> set (map fst kvs) \<or> PAGE_ID \<in> set (map fst kvs)
   \<Longrightarrow> maintains chain_ok (setProperties kvs)"
  by (auto simp: maintains_def setProperties_def chain_ok_def foldl_upd_None)

lemmas [chain] =
  maintains_quiet [OF preserves_fetch]
  maintains_quiet [OF preserves_getProperty]
  maintains_quiet [OF preserves_nowMs]
  maintains_quiet [OF preserves_nowSec]
  maintains_quiet [OF preserves_JSON_parse]
  maintains_quiet [OF preserves_getTokenInfoFromToken]
  maintains_quiet [OF preserves_getPageTokens]
  maintains_quiet [OF preserves_exchangeWC]
  maintains_quiet [OF preserves_isTokenValid]
  maintains_quiet [OF preserves_TM_getTokenInfoFromToken]
  maintains_quiet [OF preserves_getAppInfoFromToken]
  maintains_quiet [OF preserves_exchangeToLongLivedToken]

lemma maintains_writeSettingsSheet [chain]: "maintains chain_ok (writeSettingsSheet rows)"
  by (simp add: maintains_def writeSettingsSheet_eq chain_ok_def)

lemma maintains_refreshToken [chain]: "maintains chain_ok (refreshToken w)"
  unfolding refreshToken_def Let_def
  by (auto intro!: chain split: option.splits list.splits)

lemma maintains_saveAppSettings [chain]: "maintains chain_ok (saveAppSettings a b)"
  unfolding saveAppSettings_def by (auto intro!: chain)

lemma maintains_recordAppInfo [chain]: "maintains chain_ok (recordAppInfo w t)"
  unfolding recordAppInfo_def by (auto intro!: chain)

lemma maintains_setupTokensFromLongToken [chain]:
  "maintains chain_ok (setupTokensFromLongToken w t)"
  unfolding setupTokensFromLongToken_def Let_def
  by (auto intro!: chain split: option.splits list.splits)

lemma maintains_setupTokensFromShortLived [chain]:
  "maintains chain_ok (setupTokensFromShortLived w t)"
  unfolding setupTokensFromShortLived_def Let_def
  by (auto intro!: chain split: option.splits list.splits)

lemma maintains_checkAndRefreshToken [chain]: "maintains chain_ok (checkAndRefreshToken w)"
  unfolding checkAndRefreshToken_def
  by (auto intro!: chain split: option.splits list.splits)

lemma maintains_fetchComments [chain]: "maintains chain_ok (fetchComments w n p t l)"
  by (induction n arbitrary: t) (auto intro!: chain split: option.splits)

lemma maintains_fetchCommentsSince [chain]: "maintains chain_ok (fetchCommentsSince w n p t x l)"
  by (induction n arbitrary: t) (auto intro!: chain split: option.splits)

lemma maintains_postReply [chain]: "maintains chain_ok (postReply w n c m t)"
  by (induction n arbitrary: t) (auto intro!: chain split: option.splits)

lemma maintains_createPagePost [chain]: "maintains chain_ok (createPagePost w n m t)"
  by (induction n arbitrary: t) (auto intro!: chain split: option.splits)

lemma maintains_getPageInfo [chain]: "maintains chain_ok (getPageInfo w n t)"
  by (induction n arbitrary: t) (auto intro!: chain split: option.splits)

lemma maintains_appendPosts [chain]: "maintains chain_ok (appendPosts ps)"
  by (simp add: maintains_def appendPosts_def chain_ok_def)

lemma maintains_fetchRecentPosts [chain]: "maintains chain_ok (fetchRecentPosts w n t d k)"
  by (induction n arbitrary: t) (auto intro!: chain split: option.splits)

lemma maintains_fetchRecentReels [chain]: "maintains chain_ok (fetchRecentReels w n t d k)"
  by (induction n arbitrary: t)
    (auto intro!: chain split: option.splits simp del: getPageInfo.simps)

lemma maintains_appendProcessed [chain]: "maintains chain_ok (appendProcessed c t)"
  by (simp add: maintains_def appendProcessed_def chain_ok_def)

lemma maintains_logComment [chain]: "maintains chain_ok (logComment p c n m k r st e)"
  by (simp add: maintains_def logComment_def chain_ok_def)

lemma maintains_sleep [chain]: "maintains chain_ok (sleep ms)"
  by (simp add: maintains_def sleep_def chain_ok_def)

lemma maintains_loadProcessedIds [chain]: "maintains chain_ok loadProcessedIds"
  by (simp add: maintains_def loadProcessedIds_def)

lemma maintains_loadRepliedCommentIdsSet [chain]: "maintains chain_ok loadRepliedCommentIdsSet"
  by (simp add: maintains_def loadRepliedCommentIdsSet_def)

lemma maintains_processLoop [chain]: "maintains chain_ok (processLoop w n p t rs ps cs)"
  by (induction cs) (auto intro!: chain split: option.splits)

lemma maintains_processComments [chain]: "maintains chain_ok (processComments w n p t l rs ps)"
  unfolding processComments_def by (auto intro!: chain)

lemma maintains_processPosts [chain]: "maintains chain_ok (processPosts w n t l rs ps ids)"
  by (induction ids) (auto intro!: chain)

lemma maintains_fetchAndRespond [chain]: "maintains chain_ok (fetchAndRespond w n l rs ids)"
  unfolding fetchAndRespond_def by (auto intro!: chain split: option.splits)

lemma maintains_sweepComments [chain]:
  "maintains chain_ok (sweepComments w n p t rs ps x cs k)"
  by (induction cs arbitrary: k) (auto intro!: chain split: option.splits)

lemma maintains_sweepPosts [chain]: "maintains chain_ok (sweepPosts w n t rs ps x ids k)"
  by (induction ids arbitrary: k) (auto intro!: chain)

lemma maintains_replyUnrepliedCommentsLast12h [chain]:
  "maintains chain_ok (replyUnrepliedCommentsLast12h w n rs ids)"
  unfolding replyUnrepliedCommentsLast12h_def by (auto intro!: chain split: option.splits)




section \<open>The periodic validity check\<close>

lemma fetch_eq:
  "fetch w rq s =
    (case upstream w (length (calls s)) rq of None \<Rightarrow> Throw TransportError | Some res \<Rightarrow> Ret res,
     s\<lparr>calls := calls s @ [(rq, upstream w (length (calls s)) rq)]\<rparr>)"
  by (simp add: fetch_def Let_def split: option.splits)

lemma sent_append: "calls s' = calls s @ cs \<Longrightarrow> sent s s' = map fst cs"
  by (simp add: sent_def)

lemma getTokenInfoFromDebugToken_calls:
  "calls (snd (getTokenInfoFromDebugToken w i a s)) =
     calls s @ [(DebugTokenReq i (case truthy a of Some x \<Rightarrow> x | None \<Rightarrow> i),
                 upstream w (length (calls s))
                   (DebugTokenReq i (case truthy a of Some x \<Rightarrow> x | None \<Rightarrow> i)))]"
proof -
  have "snd (getTokenInfoFromDebugToken w i a s)
     = snd (fetch w (DebugTokenReq i (case truthy a of Some x \<Rightarrow> x | None \<Rightarrow> i)) s)"
    unfolding getTokenInfoFromDebugToken_def
    apply (cases "upstream w (length (calls s)) (DebugTokenReq i (case truthy a of Some x \<Rightarrow> x | None \<Rightarrow> i))")
     apply (simp add: comp_defs fetch_eq)
    apply (simp add: comp_defs fetch_eq JSON_parse_def split: payload.splits option.splits)
    done
  then show ?thesis by (simp add: fetch_eq)
qed

lemma legacy_fallback_calls:
  "calls (snd (bindE
           (catchE
              (bindE (fetch w (AccessTokenInfoReq t)) (\<lambda>response.
                 if 200 \<le> rcode response \<and> rcode response < 300 then
                   bindE (JSON_parse response) (\<lambda>data.
                     returnE (Some (legacyTokenInfo (infoData data))))
                 else returnE None))
              (\<lambda>fallbackError. returnE None))
           (\<lambda>r. case r of Some info \<Rightarrow> returnE info | None \<Rightarrow> throwE e) s))
   = calls s @ [(AccessTokenInfoReq t, upstream w (length (calls s)) (AccessTokenInfoReq t))]"
  apply (cases "upstream w (length (calls s)) (AccessTokenInfoReq t)")
   apply (simp add: comp_defs fetch_eq)
  apply (simp add: comp_defs fetch_eq JSON_parse_def split: payload.splits option.splits)
  done

lemma getTokenInfoFromToken_sent:
  "sent s (snd (getTokenInfoFromToken w t None None s)) = [DebugTokenReq t t]
   \<or> sent s (snd (getTokenInfoFromToken w t None None s)) = [DebugTokenReq t t, AccessTokenInfoReq t]"
proof -
  obtain r s1 where d: "getTokenInfoFromDebugToken w t (Some t) s = (r, s1)"
    by (cases "getTokenInfoFromDebugToken w t (Some t) s")
  have c1: "calls s1 = calls s @ [(DebugTokenReq t t, upstream w (length (calls s)) (DebugTokenReq t t))]"
    using getTokenInfoFromDebugToken_calls [of w t "Some t" s] d by (simp split: if_splits)
  show ?thesis
  proof (cases r)
    case (Ret info)
    then have "snd (getTokenInfoFromToken w t None None s) = s1"
      using d by (simp add: getTokenInfoFromToken_def catchE_def)
    then show ?thesis using c1 by (simp add: sent_def)
  next
    case (Throw e)
    then have "calls (snd (getTokenInfoFromToken w t None None s))
      = calls s1 @ [(AccessTokenInfoReq t, upstream w (length (calls s1)) (AccessTokenInfoReq t))]"
      using d legacy_fallback_calls [of w t e s1]
      by (simp add: getTokenInfoFromToken_def catchE_def [of "getTokenInfoFromDebugToken w t (Some t)"])
    then show ?thesis using c1 by (simp add: sent_def)
  next
    case Timeout
    then have "snd (getTokenInfoFromToken w t None None s) = s1"
      using d by (simp add: getTokenInfoFromToken_def catchE_def)
    then show ?thesis using c1 by (simp add: sent_def)
  qed
qed

lemma isTokenValid_sent:
  assumes "ut \<noteq> []"
  shows "sent s (snd (isTokenValid w (Some ut) s)) = [DebugTokenReq ut ut]
   \<or> sent s (snd (isTokenValid w (Some ut) s)) = [DebugTokenReq ut ut, AccessTokenInfoReq ut]"
proof -
  obtain r s1 where d: "getTokenInfoFromToken w ut None None s = (r, s1)"
    by (cases "getTokenInfoFromToken w ut None None s")
  have "snd (isTokenValid w (Some ut) s) = s1"
    using assms d
    by (cases r) (simp_all add: isTokenValid_def comp_defs split: option.splits)
  then show ?thesis using getTokenInfoFromToken_sent [of s w ut] d by simp
qed

text \<open>
  C7 (amended). When the chain is valid by both checks of \<^verbatim>\<open>checkAndRefreshToken\<close>
  (the API introspection of the stored user token and the stored expiry), the call does
  not refresh, leaves the credential store unchanged and returns no value; it is not free
  of upstream calls: every invocation sends the introspection request for the stored user
  token (and the legacy one when the first fails), and only those.
\<close>

theorem valid_chain_check:
  assumes ut: "truthy (props s USER_ACCESS_TOKEN) = Some ut"
    and api: "isTokenValid w (Some ut) s = (Ret True, s1)"
    and sto: "fst (isTokenValid w None s1) = Ret True"
  shows "checkAndRefreshToken w s = (Ret (), s1)
    \<and> props s1 = props s \<and> writes s1 = writes s
    \<and> (sent s s1 = [DebugTokenReq ut ut] \<or> sent s s1 = [DebugTokenReq ut ut, AccessTokenInfoReq ut])"
proof -
  have ne: "ut \<noteq> []" using ut by (cases "props s USER_ACCESS_TOKEN") (auto split: if_splits)
  have v: "isTokenValid w None s1 = (Ret True, s1)"
    using sto isTokenValid_stored [of w s1] by simp
  have c: "checkAndRefreshToken w s = (Ret (), s1)"
    using ut api v by (simp add: checkAndRefreshToken_def comp_defs)
  have q: "props s1 = props s" "writes s1 = writes s"
    using quietD [OF preserves_isTokenValid api] by simp_all
  have "sent s (snd (isTokenValid w (Some ut) s)) = [DebugTokenReq ut ut]
   \<or> sent s (snd (isTokenValid w (Some ut) s)) = [DebugTokenReq ut ut, AccessTokenInfoReq ut]"
    using isTokenValid_sent [OF ne] .
  then show ?thesis using c q api by simp
qed

lemma valid_chain_stored:
  "isTokenValid w None (valid_chain\<lparr>calls := cs\<rparr>) = (Ret True, valid_chain\<lparr>calls := cs\<rparr>)"
proof -
  have "parseInt ''5184001000'' = Some 5184001000"
    using parseInt_String_of [of 5184001000] by (simp add: String_of_small)
  then show ?thesis
    by (simp add: isTokenValid_stored valid_chain_def store_at_def)
qed

lemma valid_chain_api:
  "isTokenValid always_valid (Some ''U'') valid_chain
     = (Ret True, valid_chain\<lparr>calls := [(DebugTokenReq ''U'' ''U'', debug_reply (Some 0) None (Some True))]\<rparr>)"
  by (simp add: isTokenValid_def token_defs eval_defs valid_chain_def always_valid_def)

lemma valid_chain_api2:
  "isTokenValid always_valid (Some ''U'')
     (valid_chain\<lparr>calls := [(DebugTokenReq ''U'' ''U'', debug_reply (Some 0) None (Some True))]\<rparr>)
     = (Ret True, valid_chain\<lparr>calls := [(DebugTokenReq ''U'' ''U'', debug_reply (Some 0) None (Some True)),
                                         (DebugTokenReq ''U'' ''U'', debug_reply (Some 0) None (Some True))]\<rparr>)"
  by (simp add: isTokenValid_def token_defs eval_defs valid_chain_def always_valid_def)

lemma valid_chain_token:
  "truthy (props valid_chain USER_ACCESS_TOKEN) = Some ''U''"
  by (simp add: valid_chain_def store_at_def)

theorem valid_chain_check_witness:
  "checkAndRefreshToken always_valid valid_chain
     = (Ret (), valid_chain\<lparr>calls := [(DebugTokenReq ''U'' ''U'', debug_reply (Some 0) None (Some True))]\<rparr>)
   \<and> sent valid_chain
        (valid_chain\<lparr>calls := [(DebugTokenReq ''U'' ''U'', debug_reply (Some 0) None (Some True))]\<rparr>)
       = [DebugTokenReq ''U'' ''U'']"
proof -
  let ?s1 = "valid_chain\<lparr>calls := [(DebugTokenReq ''U'' ''U'', debug_reply (Some 0) None (Some True))]\<rparr>"
  note t = valid_chain_token
  have v: "fst (isTokenValid always_valid None ?s1) = Ret True"
    by (simp add: valid_chain_stored)
  have s: "sent valid_chain ?s1 = [DebugTokenReq ''U'' ''U'']"
    by (simp add: sent_def valid_chain_def store_at_def)
  show ?thesis
    using valid_chain_check [OF t valid_chain_api v] s by simp
qed

text \<open>
  The claim as stated fails: on a chain that is valid by both checks, the first and the
  second invocation in succession each send one upstream request.
\<close>

theorem valid_chain_check_counterexample:
  "isTokenValid always_valid None valid_chain = (Ret True, valid_chain)
   \<and> fst (isTokenValid always_valid (Some ''U'') valid_chain) = Ret True
   \<and> fst (checkAndRefreshToken always_valid valid_chain) = Ret ()
   \<and> sent valid_chain (snd (checkAndRefreshToken always_valid valid_chain)) = [DebugTokenReq ''U'' ''U'']
   \<and> fst (checkAndRefreshToken always_valid (snd (checkAndRefreshToken always_valid valid_chain))) = Ret ()
   \<and> sent (snd (checkAndRefreshToken always_valid valid_chain))
        (snd (checkAndRefreshToken always_valid (snd (checkAndRefreshToken always_valid valid_chain))))
       = [DebugTokenReq ''U'' ''U'']"
proof -
  let ?c = "(DebugTokenReq ''U'' ''U'', debug_reply (Some 0) None (Some True))"
  have v0: "isTokenValid always_valid None valid_chain = (Ret True, valid_chain)"
    using valid_chain_stored [of always_valid "calls valid_chain"] by simp
  have c1: "checkAndRefreshToken always_valid valid_chain = (Ret (), valid_chain\<lparr>calls := [?c]\<rparr>)"
    using valid_chain_stored [of always_valid "calls valid_chain"]
    by (simp add: checkAndRefreshToken_def comp_defs valid_chain_api valid_chain_stored
        valid_chain_token)
  have c2: "checkAndRefreshToken always_valid (valid_chain\<lparr>calls := [?c]\<rparr>)
      = (Ret (), valid_chain\<lparr>calls := [?c, ?c]\<rparr>)"
    by (simp add: checkAndRefreshToken_def comp_defs valid_chain_api2 valid_chain_stored
        valid_chain_token)
  show ?thesis
    by (simp add: v0 valid_chain_api c1 c2 sent_def) (simp add: valid_chain_def store_at_def)
qed

section \<open>The short-token exchanger\<close>

text \<open>
  C4 (the code raises). The exchanger falls back to the short token in every failure
  branch, but the fallback itself calls \<^verbatim>\<open>getTokenInfoFromToken\<close> unguarded, also in the
  \<^verbatim>\<open>catch\<close> block. When the exchange call answers 401 (or the app secret is absent)
  and the introspection then fails, the exchanger throws; when the introspection
  succeeds it returns the short token with type \<open>bearer\<close>.
\<close>

theorem exchanger_raises:
  "fst (exchangeToLongLivedToken
          (replay [info_reply (Some ''S'') None, failed 401 ''unauthorized'', failed 500 [], failed 500 []])
          ''T'' (store_at 1000 Map.empty)) = Throw (TokenInfoFailed 500 [])
   \<and> fst (exchangeToLongLivedToken
          (replay [info_reply None None, failed 500 [], failed 500 []])
          ''T'' (store_at 1000 Map.empty)) = Throw (TokenInfoFailed 500 [])
   \<and> fst (exchangeToLongLivedToken
          (replay [info_reply (Some ''S'') None, failed 401 ''unauthorized'', info_reply (Some ''S'') (Some 3600)])
          ''T'' (store_at 1000 Map.empty))
       = Ret \<lparr>accessToken = ''T'', tokenExpiresIn = 3600, tokenType = ''bearer''\<rparr>"
  by (simp add: token_defs eval_defs)

lemma exchange_fallback:
  assumes "getAppInfoFromToken w t s = (Ret (a, Some secret), s1)"
    and "fetch w (ExchangeTokenReq a secret t) s1 = (Ret res, s2)"
    and "rcode res < 200 \<or> 300 \<le> rcode res"
    and "TM_getTokenInfoFromToken w t s2 = (Ret info, s3)"
  shows "exchangeToLongLivedToken w t s
    = (Ret \<lparr>accessToken = t, tokenExpiresIn = orNum (inf_expires_in info) 0, tokenType = ''bearer''\<rparr>, s3)"
  using assms by (auto simp: exchangeToLongLivedToken_def shortTokenAsIs_def comp_defs)

section \<open>Requests sent by a computation\<close>

text \<open>
  \<open>sends P m\<close>: whatever the state, \<open>m\<close> appends to the request trace only requests
  satisfying \<open>P\<close>. The token flows send no request of the wrapped operations.
\<close>

named_theorems traffic

lemma sends_returnE [traffic]: "sends P (returnE x)"
  by (simp add: sends_def returnE_def)

lemma sends_throwE [traffic]: "sends P (throwE e)"
  by (simp add: sends_def throwE_def)

lemma sends_bindE [traffic]:
  assumes "sends P m" "\<And>x. sends P (g x)"
  shows "sends P (bindE m g)"
  unfolding sends_def
proof
  fix s
  obtain r s1 where m: "m s = (r, s1)" by (cases "m s")
  obtain cs where cs: "calls s1 = calls s @ cs" "list_all (\<lambda>c. P (fst c)) cs"
    using assms(1) m unfolding sends_def by (metis snd_conv)
  show "\<exists>cs. calls (snd (bindE m g s)) = calls s @ cs \<and> list_all (\<lambda>c. P (fst c)) cs"
  proof (cases r)
    case (Ret x)
    obtain ds where ds: "calls (snd (g x s1)) = calls s1 @ ds" "list_all (\<lambda>c. P (fst c)) ds"
      using assms(2) [of x] unfolding sends_def by blast
    have "snd (bindE m g s) = snd (g x s1)" using m Ret by (simp add: bindE_def)
    then have "calls (snd (bindE m g s)) = calls s @ (cs @ ds)" using cs ds by simp
    moreover have "list_all (\<lambda>c. P (fst c)) (cs @ ds)" using cs ds by simp
    ultimately show ?thesis by blast
  next
    case (Throw e)
    then have "snd (bindE m g s) = s1" using m by (simp add: bindE_def)
    then show ?thesis using cs by blast
  next
    case Timeout
    then have "snd (bindE m g s) = s1" using m by (simp add: bindE_def)
    then show ?thesis using cs by blast
  qed
qed

lemma sends_catchE [traffic]:
  assumes "sends P m" "\<And>e. sends P (h e)"
  shows "sends P (catchE m h)"
  unfolding sends_def
proof
  fix s
  obtain r s1 where m: "m s = (r, s1)" by (cases "m s")
  obtain cs where cs: "calls s1 = calls s @ cs" "list_all (\<lambda>c. P (fst c)) cs"
    using assms(1) m unfolding sends_def by (metis snd_conv)
  show "\<exists>cs. calls (snd (catchE m h s)) = calls s @ cs \<and> list_all (\<lambda>c. P (fst c)) cs"
  proof (cases r)
    case (Throw e)
    obtain ds where ds: "calls (snd (h e s1)) = calls s1 @ ds" "list_all (\<lambda>c. P (fst c)) ds"
      using assms(2) [of e] unfolding sends_def by blast
    have "snd (catchE m h s) = snd (h e s1)" using m Throw by (simp add: catchE_def)
    then have "calls (snd (catchE m h s)) = calls s @ (cs @ ds)" using cs ds by simp
    moreover have "list_all (\<lambda>c. P (fst c)) (cs @ ds)" using cs ds by simp
    ultimately show ?thesis by blast
  next
    case (Ret x)
    then have "snd (catchE m h s) = s1" using m by (simp add: catchE_def)
    then show ?thesis using cs by blast
  next
    case Timeout
    then have "snd (catchE m h s) = s1" using m by (simp add: catchE_def)
    then show ?thesis using cs by blast
  qed
qed

lemma sends_fetch [traffic]: "P rq \<Longrightarrow> sends P (fetch w rq)"
  by (simp add: sends_def fetch_eq)

lemma sends_silent: "preserves calls m \<Longrightarrow> sends P m"
  by (simp add: sends_def preserves_def)

lemma sends_JSON_parse [traffic]: "sends P (JSON_parse r)"
  by (simp add: JSON_parse_def sends_returnE sends_throwE split: payload.splits)

lemma sends_getProperty [traffic]: "sends P (getProperty k)"
  by (simp add: sends_def getProperty_def)

lemma sends_setProperties [traffic]: "sends P (setProperties kvs)"
  by (simp add: sends_def setProperties_def)

lemma sends_nowMs [traffic]: "sends P nowMs"
  by (simp add: sends_def nowMs_def)

lemma sends_nowSec [traffic]: "sends P nowSec"
  by (simp add: sends_def nowSec_def)

lemma sends_writeSettingsSheet [traffic]: "sends P (writeSettingsSheet rows)"
  by (simp add: sends_def writeSettingsSheet_eq)

lemma sends_getTokenInfoFromDebugToken [traffic]:
  "sends (\<lambda>r. \<not> wrapped r) (getTokenInfoFromDebugToken w i a)"
  unfolding getTokenInfoFromDebugToken_def
  by (auto intro!: traffic split: option.splits)

lemma sends_getTokenInfoFromToken [traffic]:
  "sends (\<lambda>r. \<not> wrapped r) (getTokenInfoFromToken w t a b)"
  unfolding getTokenInfoFromToken_def
  by (auto intro!: traffic split: option.splits)

lemma sends_getPageTokens [traffic]: "sends (\<lambda>r. \<not> wrapped r) (getPageTokens w t)"
  unfolding getPageTokens_def
  by (auto intro!: traffic split: option.splits)

lemma sends_exchangeWC [traffic]:
  "sends (\<lambda>r. \<not> wrapped r) (exchangeToLongLivedTokenWithCredentials w t a b)"
  unfolding exchangeToLongLivedTokenWithCredentials_def
  by (auto intro!: traffic split: option.splits)

lemma sends_refreshToken [traffic]: "sends (\<lambda>r. \<not> wrapped r) (refreshToken w)"
  unfolding refreshToken_def Let_def
  by (auto intro!: traffic split: option.splits list.splits)

lemma refresh_traffic:
  assumes "refreshToken w s1 = (r, s2)"
  shows "filter wrapped (sent s1 s2) = []" "length (calls s1) \<le> length (calls s2)"
    "take (length (calls s1)) (calls s2) = calls s1"
proof -
  obtain cs where cs: "calls s2 = calls s1 @ cs" "list_all (\<lambda>c. \<not> wrapped (fst c)) cs"
    using sends_refreshToken [of w] assms unfolding sends_def by (metis snd_conv)
  show "filter wrapped (sent s1 s2) = []"
    using cs by (simp add: sent_def list_all_iff filter_empty_conv)
  show "length (calls s1) \<le> length (calls s2)" using cs by simp
  show "take (length (calls s1)) (calls s2) = calls s1" using cs by simp
qed

lemma sent_step:
  assumes "calls s1 = calls s @ [(rq, r)]" "take (length (calls s1)) (calls s2) = calls s1"
  shows "sent s s2 = rq # sent s1 s2"
proof -
  have "calls s2 = calls s1 @ drop (length (calls s1)) (calls s2)"
    using assms(2) by (metis append_take_drop_id)
  then have "calls s2 = calls s @ (rq, r) # drop (length (calls s1)) (calls s2)"
    using assms(1) by simp
  then have "drop (length (calls s)) (calls s2) = (rq, r) # drop (length (calls s1)) (calls s2)"
    by (metis append_eq_conv_conj)
  then show ?thesis by (simp add: sent_def)
qed

section \<open>Session expiry in the wrapped operations\<close>

text \<open>
  The first request of each operation of part_000, and what follows a session-expired
  answer, for both results of \<^verbatim>\<open>refreshToken()\<close>; then an answer without the signature.
\<close>

lemma bindE_fetch:
  "upstream w (length (calls s)) rq = Some res
   \<Longrightarrow> bindE (fetch w rq) g s = g res (s\<lparr>calls := calls s @ [(rq, Some res)]\<rparr>)"
  by (simp add: bindE_def fetch_eq)

lemma bindE_nowMs: "bindE nowMs g s = g (int (clock s)) s"
  by (simp add: bindE_def nowMs_def)

lemma retry_refused:
  assumes "refreshToken w s1 = (Ret False, s2)"
  shows "catchE
           (bindE (refreshToken w) (\<lambda>refreshSuccess.
              if refreshSuccess then k else throwE RefreshReturnedFalse))
           (\<lambda>refreshError. throwE (CredentialRefreshFailed refreshError)) s1
         = (Throw (CredentialRefreshFailed RefreshReturnedFalse), s2)"
  using assms by (simp add: comp_defs)


lemma fetchComments_refused:
  assumes u: "upstream w (length (calls s)) (CommentsReq postId (min 500 (orNum (Some limit) 500)) token) = Some res"
    and e: "expired res"
    and f: "refreshToken w (s\<lparr>calls := calls s @ [(CommentsReq postId (min 500 (orNum (Some limit) 500)) token, Some res)]\<rparr>) = (Ret False, s2)"
  shows "fetchComments w (Suc n) postId token limit s = (Throw (CredentialRefreshFailed RefreshReturnedFalse), s2)"
proof -
  have c: "rcode res = 400" "includesStr (rtext res) ''Session has expired''"
    using e by (simp_all add: expired_def)
  show ?thesis
    by (simp add: bindE_nowMs bindE_fetch [OF u] c retry_refused [OF f] del: orNum.simps)
qed



lemma fetchCommentsSince_refused:
  assumes u: "upstream w (length (calls s)) (CommentsSinceReq postId (sinceMs div 1000) (min 500 (orNum (Some limit) 500)) token) = Some res"
    and e: "expired res"
    and f: "refreshToken w (s\<lparr>calls := calls s @ [(CommentsSinceReq postId (sinceMs div 1000) (min 500 (orNum (Some limit) 500)) token, Some res)]\<rparr>) = (Ret False, s2)"
  shows "fetchCommentsSince w (Suc n) postId token sinceMs limit s = (Throw (CredentialRefreshFailed RefreshReturnedFalse), s2)"
proof -
  have c: "rcode res = 400" "includesStr (rtext res) ''Session has expired''"
    using e by (simp_all add: expired_def)
  show ?thesis
    by (simp add: bindE_nowMs bindE_fetch [OF u] c retry_refused [OF f] del: orNum.simps)
qed



lemma postReply_refused:
  assumes u: "upstream w (length (calls s)) (ReplyReq commentId message token) = Some res"
    and e: "expired res"
    and f: "refreshToken w (s\<lparr>calls := calls s @ [(ReplyReq commentId message token, Some res)]\<rparr>) = (Ret False, s2)"
  shows "postReply w (Suc n) commentId message token s = (Throw (CredentialRefreshFailed RefreshReturnedFalse), s2)"
proof -
  have c: "rcode res = 400" "includesStr (rtext res) ''Session has expired''"
    using e by (simp_all add: expired_def)
  show ?thesis
    by (simp add: bindE_nowMs bindE_fetch [OF u] c retry_refused [OF f] del: orNum.simps)
qed



lemma createPagePost_refused:
  assumes u: "upstream w (length (calls s)) (FeedReq message token) = Some res"
    and e: "expired res"
    and f: "refreshToken w (s\<lparr>calls := calls s @ [(FeedReq message token, Some res)]\<rparr>) = (Ret False, s2)"
  shows "createPagePost w (Suc n) message token s = (Throw (CredentialRefreshFailed RefreshReturnedFalse), s2)"
proof -
  have c: "rcode res = 400" "includesStr (rtext res) ''Session has expired''"
    using e by (simp_all add: expired_def)
  show ?thesis
    by (simp add: bindE_nowMs bindE_fetch [OF u] c retry_refused [OF f] del: orNum.simps)
qed


lemma getPageInfo_refused:
  assumes u: "upstream w (length (calls s)) (MeReq token) = Some res"
    and e: "expired res"
    and f: "refreshToken w (s\<lparr>calls := calls s @ [(MeReq token, Some res)]\<rparr>) = (Ret False, s2)"
  shows "getPageInfo w (Suc n) token s = (Throw (CredentialRefreshFailed RefreshReturnedFalse), s2)"
proof -
  have c: "rcode res = 400" "includesStr (rtext res) ''Session has expired''"
    using e by (simp_all add: expired_def)
  show ?thesis
    by (simp add: bindE_nowMs bindE_fetch [OF u] c retry_refused [OF f] del: orNum.simps)
qed



lemma fetchRecentPosts_refused:
  assumes sn: "since = (int (clock s) - lookbackDays * 24 * 60 * 60 * 1000) div 1000"
    and u: "upstream w (length (calls s)) (PostsReq since maxCount token) = Some res"
    and e: "expired res"
    and f: "refreshToken w (s\<lparr>calls := calls s @ [(PostsReq since maxCount token, Some res)]\<rparr>) = (Ret False, s2)"
  shows "fetchRecentPosts w (Suc n) token lookbackDays maxCount s = (Throw (CredentialRefreshFailed RefreshReturnedFalse), s2)"
proof -
  have u: "upstream w (length (calls s)) (PostsReq ((int (clock s) - 86400000 * lookbackDays) div 1000) maxCount token) = Some res"
    using u by (simp add: sn)
  have f: "refreshToken w (s\<lparr>calls := calls s @ [(PostsReq ((int (clock s) - 86400000 * lookbackDays) div 1000) maxCount token, Some res)]\<rparr>) = (Ret False, s2)"
    using f by (simp add: sn)
  have c: "rcode res = 400" "includesStr (rtext res) ''Session has expired''"
    using e by (simp_all add: expired_def)
  show ?thesis
    by (simp add: bindE_nowMs bindE_fetch [OF u] c retry_refused [OF f] del: orNum.simps)
qed





lemma once_traffic:
  assumes f: "refreshToken w (s\<lparr>calls := calls s @ [(rq, r)]\<rparr>) = (b, s2)"
    and w: "wrapped rq"
  shows "filter wrapped (sent s s2) = [rq]"
proof -
  let ?s1 = "s\<lparr>calls := calls s @ [(rq, r)]\<rparr>"
  have "sent s s2 = rq # sent ?s1 s2"
    using refresh_traffic(3) [OF f] by (intro sent_step [where r = r]) simp_all
  then show ?thesis
    using refresh_traffic(1) [OF f] w by simp
qed







section \<open>The reel listing\<close>

lemma sends_mono:
  assumes "sends P m" "\<And>r. P r \<Longrightarrow> Q r"
  shows "sends Q m"
  unfolding sends_def
proof
  fix s
  obtain cs where "calls (snd (m s)) = calls s @ cs" "list_all (\<lambda>c. P (fst c)) cs"
    using assms(1) unfolding sends_def by blast
  then show "\<exists>cs. calls (snd (m s)) = calls s @ cs \<and> list_all (\<lambda>c. Q (fst c)) cs"
    using assms(2) by (auto simp: list_all_iff)
qed

lemma sendsD:
  assumes "sends P m" "m s = (r, s')"
  shows "filter (\<lambda>x. \<not> P x) (sent s s') = []" "take (length (calls s)) (calls s') = calls s"
proof -
  obtain cs where cs: "calls s' = calls s @ cs" "list_all (\<lambda>c. P (fst c)) cs"
    using assms unfolding sends_def by (metis snd_conv)
  show "filter (\<lambda>x. \<not> P x) (sent s s') = []"
    using cs by (simp add: sent_def list_all_iff filter_empty_conv)
  show "take (length (calls s)) (calls s') = calls s" using cs by simp
qed

lemma reelsRequest_wrapped: "reelsRequest r \<Longrightarrow> wrapped r"
  by (cases r) simp_all

lemma sends_getPageInfo_no_reels: "sends (\<lambda>r. \<not> reelsRequest r) (getPageInfo w n token)"
proof (induction n arbitrary: token)
  case 0
  show ?case by (simp add: sends_def)
next
  case (Suc n)
  have r: "sends (\<lambda>r. \<not> reelsRequest r) (refreshToken w)"
    by (rule sends_mono [OF sends_refreshToken]) (auto dest: reelsRequest_wrapped)
  show ?case
    by (auto intro!: traffic r Suc split: option.splits)
qed




lemma fetchRecentReels_refused:
  assumes p: "getPageInfo w (Suc n) token s0 = (Ret pageInfo, s)"
    and sn: "since = (int (clock s) - lookbackDays * 24 * 60 * 60 * 1000) div 1000"
    and u: "upstream w (length (calls s)) (ReelsReq (fst pageInfo) since maxCount token) = Some res"
    and e: "expired res"
    and f: "refreshToken w
              (s\<lparr>calls := calls s @ [(ReelsReq (fst pageInfo) since maxCount token, Some res)]\<rparr>)
            = (Ret False, s')"
  shows "fetchRecentReels w (Suc n) token lookbackDays maxCount s0 = (Ret [], s')"
proof -
  let ?rq = "ReelsReq (fst pageInfo) ((int (clock s) - 86400000 * lookbackDays) div 1000)
               maxCount token"
  have u: "upstream w (length (calls s)) ?rq = Some res"
    using u by (simp add: sn)
  have f: "refreshToken w (s\<lparr>calls := calls s @ [(?rq, Some res)]\<rparr>) = (Ret False, s')"
    using f by (simp add: sn)
  have c: "rcode res = 400" "includesStr (rtext res) ''Session has expired''"
    using e by (simp_all add: expired_def)
  have inner: "bindE (getPageInfo w (Suc n) token) g s0 = g pageInfo s" for g :: "_ \<Rightarrow> string list comp"
    by (simp add: bindE_def p del: getPageInfo.simps)
  show ?thesis
    unfolding fetchRecentReels.simps
    by (simp add: catchE_def [of "bindE (getPageInfo w (Suc n) token) _"] inner bindE_nowMs
        bindE_fetch [OF u] c retry_refused [OF f] returnE_def
        del: getPageInfo.simps)
qed



lemma reels_once_traffic:
  assumes p: "getPageInfo w n token s0 = (r0, s)"
    and f: "refreshToken w (s\<lparr>calls := calls s @ [(rq, r)]\<rparr>) = (b, s')"
    and w: "reelsRequest rq"
  shows "filter reelsRequest (sent s0 s') = [rq]"
proof -
  let ?s1 = "s\<lparr>calls := calls s @ [(rq, r)]\<rparr>"
  obtain cs0 where cs0: "calls s = calls s0 @ cs0" "list_all (\<lambda>c. \<not> reelsRequest (fst c)) cs0"
    using sends_getPageInfo_no_reels [of w n token] p unfolding sends_def by (metis snd_conv)
  have "\<exists>cs. calls (snd (refreshToken w ?s1)) = calls ?s1 @ cs
      \<and> list_all (\<lambda>c. \<not> wrapped (fst c)) cs"
    using sends_refreshToken [of w] unfolding sends_def by blast
  then obtain cs where cs: "calls s' = calls ?s1 @ cs" "list_all (\<lambda>c. \<not> wrapped (fst c)) cs"
    using f by auto
  have n: "list_all (\<lambda>c. \<not> reelsRequest (fst c)) cs"
    using cs(2) reelsRequest_wrapped by (auto simp: list_all_iff)
  have "calls s' = calls s0 @ (cs0 @ (rq, r) # cs)"
    using cs(1) cs0(1) by simp
  then have "sent s0 s' = map fst cs0 @ rq # map fst cs"
    by (simp add: sent_def)
  then show ?thesis
    using cs0(2) n w by (simp add: list_all_iff filter_empty_conv)
qed






section \<open>Refresh refused, refresh granted\<close>

text \<open>
  C6 (amended). When a wrapped request is answered with status 400 and a body
  containing \<^verbatim>\<open>Session has expired\<close>, and \<^verbatim>\<open>refreshToken()\<close> then returns \<^verbatim>\<open>false\<close>, the
  operation is not called again: the request is the only one of its kind in the
  invocation. The comment fetches, the reply post, the page post, the page lookup and
  the post listing raise the credential-refresh failure (carrying the message of the
  \<^verbatim>\<open>else\<close> branch) in the state the refresh left. The reel listing raises nothing: its
  outer \<^verbatim>\<open>catch\<close> takes the failure and the result is the empty list.
\<close>

theorem refresh_failure_is_final:
  assumes u: "upstream w (length (calls s)) rq = Some res"
    and e: "expired res"
    and f: "refreshToken w (s\<lparr>calls := calls s @ [(rq, Some res)]\<rparr>) = (Ret False, s')"
  shows
    "(rq = CommentsReq postId (min 500 (orNum (Some limit) 500)) token \<longrightarrow>
        fetchComments w (Suc n) postId token limit s
          = (Throw (CredentialRefreshFailed RefreshReturnedFalse), s'))
     \<and> (rq = CommentsSinceReq postId (sinceMs div 1000) (min 500 (orNum (Some limit) 500)) token \<longrightarrow>
        fetchCommentsSince w (Suc n) postId token sinceMs limit s
          = (Throw (CredentialRefreshFailed RefreshReturnedFalse), s'))
     \<and> (rq = ReplyReq commentId message token \<longrightarrow>
        postReply w (Suc n) commentId message token s
          = (Throw (CredentialRefreshFailed RefreshReturnedFalse), s'))
     \<and> (rq = FeedReq message token \<longrightarrow>
        createPagePost w (Suc n) message token s
          = (Throw (CredentialRefreshFailed RefreshReturnedFalse), s'))
     \<and> (rq = MeReq token \<longrightarrow>
        getPageInfo w (Suc n) token s
          = (Throw (CredentialRefreshFailed RefreshReturnedFalse), s'))
     \<and> (rq = PostsReq ((int (clock s) - lookbackDays * 24 * 60 * 60 * 1000) div 1000)
                maxCount token \<longrightarrow>
        fetchRecentPosts w (Suc n) token lookbackDays maxCount s
          = (Throw (CredentialRefreshFailed RefreshReturnedFalse), s'))
     \<and> (getPageInfo w (Suc n) token s0 = (Ret pageInfo, s)
        \<and> rq = ReelsReq (fst pageInfo)
                 ((int (clock s) - lookbackDays * 24 * 60 * 60 * 1000) div 1000)
                 maxCount token \<longrightarrow>
        fetchRecentReels w (Suc n) token lookbackDays maxCount s0 = (Ret [], s')
        \<and> filter reelsRequest (sent s0 s') = [rq])
     \<and> (wrapped rq \<longrightarrow> filter wrapped (sent s s') = [rq])"
    (is "?A \<and> ?B \<and> ?C \<and> ?D \<and> ?E \<and> ?F \<and> ?R \<and> ?G")
proof -
  have A: ?A using fetchComments_refused u e f by blast
  have B: ?B using fetchCommentsSince_refused u e f by blast
  have C: ?C using postReply_refused u e f by blast
  have D: ?D using createPagePost_refused u e f by blast
  have E: ?E using getPageInfo_refused u e f by blast
  have F: ?F using fetchRecentPosts_refused [OF refl] u e f by blast
  have R: ?R
  proof (intro impI, elim conjE)
    assume p: "getPageInfo w (Suc n) token s0 = (Ret pageInfo, s)"
      and r: "rq = ReelsReq (fst pageInfo)
                 ((int (clock s) - lookbackDays * 24 * 60 * 60 * 1000) div 1000)
                 maxCount token"
    have "fetchRecentReels w (Suc n) token lookbackDays maxCount s0 = (Ret [], s')"
      using fetchRecentReels_refused [OF p refl] u e f unfolding r by blast
    moreover have "filter reelsRequest (sent s0 s') = [rq]"
      by (rule reels_once_traffic [OF p f]) (simp add: r)
    ultimately show "fetchRecentReels w (Suc n) token lookbackDays maxCount s0 = (Ret [], s')
        \<and> filter reelsRequest (sent s0 s') = [rq]" by simp
  qed
  have G: ?G using once_traffic [OF f] by blast
  show ?thesis
    by (rule conjI [OF A conjI [OF B conjI [OF C conjI [OF D conjI [OF E conjI [OF F
          conjI [OF R G]]]]]]])
qed

theorem refresh_failure_is_final_witness:
  "fetchComments (replay [session_expired, ok (PagesJson (Some []))]) (Suc 0) ''P'' ''PT0'' 50
      stale_chain
     = (Throw (CredentialRefreshFailed RefreshReturnedFalse),
        stale_chain\<lparr>calls := [(CommentsReq ''P'' 50 ''PT0'', session_expired),
                               (MeAccountsReq ''U'', ok (PagesJson (Some [])))]\<rparr>)
   \<and> filter wrapped (sent stale_chain
        (stale_chain\<lparr>calls := [(CommentsReq ''P'' 50 ''PT0'', session_expired),
                                (MeAccountsReq ''U'', ok (PagesJson (Some [])))]\<rparr>))
     = [CommentsReq ''P'' 50 ''PT0'']"
proof -
  let ?w = "replay [session_expired, ok (PagesJson (Some []))]"
  let ?rq = "CommentsReq ''P'' 50 ''PT0''"
  let ?s' = "stale_chain\<lparr>calls := [(?rq, session_expired),
                                     (MeAccountsReq ''U'', ok (PagesJson (Some [])))]\<rparr>"
  have u: "upstream ?w (length (calls stale_chain)) ?rq = Some (the session_expired)"
    by (simp add: replay_def stale_chain_def store_at_def session_expired_def failed_def)
  have e: "expired (the session_expired)"
    by (simp add: expired_def session_expired_def failed_def)
  have f: "refreshToken ?w (stale_chain\<lparr>calls := calls stale_chain @ [(?rq, Some (the session_expired))]\<rparr>)
      = (Ret False, ?s')"
    by (simp add: refreshToken_def token_defs eval_defs stale_chain_def session_expired_def)
  have p: "?rq = CommentsReq ''P'' (min 500 (orNum (Some 50) 500)) ''PT0''" "wrapped ?rq"
    by simp_all
  note all = refresh_failure_is_final [OF u e f,
      where postId = "''P''" and limit = 50 and token = "''PT0''" and n = 0]
  show ?thesis
    using all [THEN conjunct1, THEN mp, OF p(1)]
      all [THEN conjunct2, THEN conjunct2, THEN conjunct2, THEN conjunct2, THEN conjunct2,
        THEN conjunct2, THEN conjunct2, THEN mp, OF p(2)]
    by (simp add: session_expired_def failed_def del: fetchComments.simps)
qed

theorem reels_swallow_refresh_failure_counterexample:
  "fst (fetchRecentReels (replay [page_reply, session_expired, ok (PagesJson (Some []))])
          (Suc 0) ''PT0'' 3 10 stale_chain) = Ret []
   \<and> sent stale_chain
        (snd (fetchRecentReels (replay [page_reply, session_expired, ok (PagesJson (Some []))])
                (Suc 0) ''PT0'' 3 10 stale_chain))
     = [MeReq ''PT0'', ReelsReq ''42'' (- 259199) 10 ''PT0'', MeAccountsReq ''U'']"
  by (simp add: refreshToken_def token_defs eval_defs stale_chain_def session_expired_def
      page_reply_def idData_def sent_def)




lemma reels_retry_returns_empty:
  "fst (fetchRecentReels reels_expiring_once (Suc (Suc 0)) ''PT0'' 3 10 stale_chain) = Ret []
   \<and> filter wrapped (sent stale_chain
        (snd (fetchRecentReels reels_expiring_once (Suc (Suc 0)) ''PT0'' 3 10 stale_chain)))
     = [MeReq ''PT0'', ReelsReq ''42'' (- 259199) 10 ''PT0'',
        MeReq ''PT'', ReelsReq ''42'' (- 259199) 10 ''PT'']"
  by (simp add: refreshToken_def token_defs eval_defs reels_expiring_once_def stale_chain_def
      session_expired_def page_reply_def idData_def upsertSettings_eq sent_def tokenArg_def)

section \<open>Replies of one invocation\<close>

text \<open>
  A comment whose id is in the set loaded before the loop is passed over: the loop of
  \<^verbatim>\<open>processComments\<close> does on a list what it does on the list without those comments,
  and in the 12-hour sweep the state reached (requests, log rows, processed rows) is
  that of the list without them, whatever the counters.
\<close>

lemma processLoop_known:
  "processLoop w n postId token rules processedSet comments =
     processLoop w n postId token rules processedSet
       (filter (\<lambda>c. c_id c \<notin> processedSet) comments)"
  by (induction comments) (simp_all split: option.splits)

lemma sweepComments_known:
  "snd (sweepComments w n postId token rules repliedSet sinceMs comments k s) =
     snd (sweepComments w n postId token rules repliedSet sinceMs
            (filter (\<lambda>c. trim (c_id c) \<notin> repliedSet) comments) k' s)"
proof (induction comments arbitrary: k k' s)
  case Nil
  show ?case by (simp add: returnE_def)
next
  case (Cons c rest)
  show ?case
    using Cons
    by (simp add: bindE_def catchE_def returnE_def logComment_def appendProcessed_def sleep_def
        split: option.splits prod.splits outcome.splits)
qed

text \<open>
  C10. The sets are loaded once and not extended inside the loops, so a comment met a
  second time in the same invocation is answered a second time. With the post id
  entered twice in the settings row, one invocation of the sweep sends the reply to
  comment \<open>c1\<close> twice and counts two replies; \<^verbatim>\<open>fetchAndRespond\<close> does the same.
\<close>

lemma greeting_read:
  "toLowerCase ''Hello there'' = ''hello there''" "toLowerCase ''hello'' = ''hello''"
  "parseInt ''5000'' = Some 5000" "generateReply ''Thanks {name}'' ''Ann'' = ''Thanks Ann''"
  "manualPostIds (Some ''77, 77'') = [''77'', ''77'']"
  by code_simp+

theorem sweep_replies_twice:
  "manualPostIds (Some ''77, 77'') = [''77'', ''77'']
   \<and> fst (replyUnrepliedCommentsLast12h same_post_twice (Suc 0) [thanks_rule] [''77'', ''77'']
            page_token_only)
       = Ret \<lparr>n_total = 2, n_replied = 2, n_failed = 0, n_skipped = 0\<rparr>
   \<and> sent page_token_only
        (snd (replyUnrepliedCommentsLast12h same_post_twice (Suc 0) [thanks_rule] [''77'', ''77'']
                page_token_only))
       = [CommentsSinceReq ''77'' (- 43199) 200 ''PT'', ReplyReq ''c1'' ''Thanks Ann'' ''PT'',
          CommentsSinceReq ''77'' (- 43199) 200 ''PT'', ReplyReq ''c1'' ''Thanks Ann'' ''PT'']
   \<and> map (\<lambda>r. (l_commentId r, l_status r))
        (logs (snd (replyUnrepliedCommentsLast12h same_post_twice (Suc 0) [thanks_rule]
                      [''77'', ''77''] page_token_only)))
       = [(''c1'', ''replied''), (''c1'', ''replied'')]
   \<and> sent page_token_only
        (snd (fetchAndRespond same_post_twice (Suc 0) 50 [thanks_rule] [''77'', ''77'']
                page_token_only))
       = [CommentsReq ''77'' 50 ''PT'', ReplyReq ''c1'' ''Thanks Ann'' ''PT'',
          CommentsReq ''77'' 50 ''PT'', ReplyReq ''c1'' ''Thanks Ann'' ''PT'']"
  by (simp add: greeting_read trim_def isSpace_def replyUnrepliedCommentsLast12h_def
      fetchAndRespond_def processComments_def loadRepliedCommentIdsSet_def loadProcessedIds_def
      eval_defs same_post_twice_def page_token_only_def thanks_rule_def greeting_def
      findMatchingRule_def appendProcessed_def logComment_def sleep_def commentsData_def
      idData_def sent_def)

end
